theory Spec2Isabelle
  imports Main "HOL-Library.FSet" "HOL-Library.AList"
begin

section \<open>Strings\<close>

text \<open>
  A Python \<open>str\<close> is modelled as a \<open>string\<close>: a list of characters whose code points
  are below 256. Every operation below works on characters, as the Python does on code
  points. \<open>None\<close> is the \<open>None\<close> of an option type.
\<close>

definition is_digit :: "char \<Rightarrow> bool" where
  \<comment> \<open>the regular expression class \<open>\\d\<close> on code points below 256\<close>
  "is_digit c = (c \<in> set ''0123456789'')"

definition is_space :: "char \<Rightarrow> bool" where
  \<comment> \<open>the characters \<open>str.strip()\<close> removes, among the code points below 256\<close>
  "is_space c = (c \<in> set [CHR 0x09, CHR 0x0A, CHR 0x0B, CHR 0x0C, CHR 0x0D,
                           CHR 0x1C, CHR 0x1D, CHR 0x1E, CHR 0x1F, CHR 0x20,
                           CHR 0x85, CHR 0xA0])"

definition strip :: "string \<Rightarrow> string" where
  \<comment> \<open>\<open>s.strip()\<close>\<close>
  "strip s = rev (dropWhile is_space (rev (dropWhile is_space s)))"

definition replace_char :: "char \<Rightarrow> string \<Rightarrow> string \<Rightarrow> string" where
  \<comment> \<open>\<open>s.replace(old, new)\<close> for a one-character \<open>old\<close>\<close>
  "replace_char old new s = concat (map (\<lambda>c. if c = old then new else [c]) s)"

fun startswith :: "string \<Rightarrow> string \<Rightarrow> bool" where
  \<comment> \<open>\<open>s.startswith(p)\<close>, with the arguments in the order \<open>p\<close>, \<open>s\<close>\<close>
  "startswith [] s = True"
| "startswith (p # ps) [] = False"
| "startswith (p # ps) (c # cs) = (p = c \<and> startswith ps cs)"

fun str_in :: "string \<Rightarrow> string \<Rightarrow> bool" where
  \<comment> \<open>\<open>p in s\<close> on strings: \<open>p\<close> occurs in \<open>s\<close> as a contiguous substring\<close>
  "str_in p [] = (p = [])"
| "str_in p (c # cs) = (startswith p (c # cs) \<or> str_in p cs)"

fun join :: "string \<Rightarrow> string list \<Rightarrow> string" where
  \<comment> \<open>\<open>sep.join(xs)\<close>\<close>
  "join sep [] = []"
| "join sep [x] = x"
| "join sep (x # y # ys) = x @ sep @ join sep (y # ys)"

fun split_on :: "char \<Rightarrow> string \<Rightarrow> string list" where
  \<comment> \<open>\<open>s.split(sep)\<close> for a one-character \<open>sep\<close>\<close>
  "split_on sep [] = [[]]"
| "split_on sep (c # cs) =
     (if c = sep then [] # split_on sep cs
      else (case split_on sep cs of
              [] \<Rightarrow> [[c]]
            | w # ws \<Rightarrow> (c # w) # ws))"

fun str_nat :: "nat \<Rightarrow> string" where
  \<comment> \<open>the decimal digits of a natural number\<close>
  "str_nat n =
     (if n < 10 then [''0123456789'' ! n]
      else str_nat (n div 10) @ [''0123456789'' ! (n mod 10)])"

declare str_nat.simps [simp del]

definition str_int :: "int \<Rightarrow> string" where
  \<comment> \<open>\<open>str(n)\<close> for an integer\<close>
  "str_int n = (if n < 0 then CHR ''-'' # str_nat (nat (- n)) else str_nat (nat n))"


section \<open>The id of an article\<close>

text \<open>
  \<^verbatim>\<open>
  def extract_id_from_url(u):
      m = re.search(r'/(\d+)(?:$|[/?#])', u)
      return m.group(1) if m else ""
  \<close>
  \<open>re.search\<close> tries the start positions from left to right and returns the first
  match. At a start position the pattern needs a slash, then a run of digits, then the
  end of the string or one of \<open>/\<close>, \<open>?\<close>, \<open>#\<close>. The run is the longest one: a shorter
  run is followed by a digit, where neither alternative matches. Without the MULTILINE
  flag, \<open>$\<close> matches at the end of the string and just before a newline that ends it.
\<close>

definition seg_end :: "string \<Rightarrow> bool" where
  \<comment> \<open>\<open>(?:$|[/?#])\<close> matches at the start of the rest \<open>r\<close> of the string\<close>
  "seg_end r =
     (case r of
        [] \<Rightarrow> True
      | c # cs \<Rightarrow> (c = CHR 0x0A \<and> cs = []) \<or> c \<in> set ''/?#'')"

fun re_search_id :: "string \<Rightarrow> string option" where
  \<comment> \<open>group 1 of the leftmost match, \<open>None\<close> when there is no match\<close>
  "re_search_id [] = None"
| "re_search_id (c # cs) =
     (if c = CHR ''/'' \<and> takeWhile is_digit cs \<noteq> [] \<and> seg_end (dropWhile is_digit cs)
      then Some (takeWhile is_digit cs)
      else re_search_id cs)"

definition extract_id_from_url :: "string \<Rightarrow> string" where
  "extract_id_from_url u = (case re_search_id u of Some d \<Rightarrow> d | None \<Rightarrow> [])"

definition record_id :: "string \<Rightarrow> int \<Rightarrow> string" where
  \<comment> \<open>\<open>extract_id_from_url(loc) or str(int(time.time()))\<close>; \<open>now\<close> is \<open>int(time.time())\<close>\<close>
  "record_id loc now =
     (if extract_id_from_url loc \<noteq> [] then extract_id_from_url loc else str_int now)"

definition numeric_seg_at :: "string \<Rightarrow> nat \<Rightarrow> string \<Rightarrow> bool" where
  \<comment> \<open>position \<open>i\<close> of \<open>u\<close> holds a slash, followed by the non-empty digit string \<open>d\<close>,
      followed by the end of the string (or its final newline) or one of \<open>/\<close>, \<open>?\<close>, \<open>#\<close>\<close>
  "numeric_seg_at u i d =
     (i < length u \<and> u ! i = CHR ''/'' \<and> d \<noteq> [] \<and> list_all is_digit d \<and>
      take (length d) (drop (Suc i) u) = d \<and> seg_end (drop (Suc i + length d) u))"

definition spec_last_numeric_segment :: "string \<Rightarrow> string option" where
  \<comment> \<open>the specification's words: the last purely numeric segment of the URL, the
      segments being the pieces between slashes\<close>
  "spec_last_numeric_segment u =
     (case filter (\<lambda>w. w \<noteq> [] \<and> list_all is_digit w) (split_on (CHR ''/'') u) of
        [] \<Rightarrow> None
      | w # ws \<Rightarrow> Some (last (w # ws)))"


section \<open>The section of a URL\<close>

text \<open>
  \<^verbatim>\<open>
  SUBFILTERS = {
      'economics': lambda u: '/money/economics/thai_economics/' in u,
      'investment': lambda u: '/money/investment/' in u,
      'tech_innovation': lambda u: '/money/tech_innovation/' in u,
      'politic': lambda u: '/news/politic/' in u,
      'personal_finance': lambda u: '/money/personal_finance/' in u,
      'business_marketing': lambda u: '/money/business_marketing/' in u,
  }
  SECTION_PREFIX = {
      'economics': '/money/economics',
      'investment': '/money/investment',
      'tech_innovation': '/money/tech_innovation',
      'politic': '/news/politic',
      'personal_finance': '/money/personal_finance',
      'business_marketing': '/money/business_marketing',
  }
  def which_section(url, sections_set):
      for s in sections_set:
          prefix = SECTION_PREFIX.get(s)
          sub_filter = SUBFILTERS.get(s)
          if prefix and prefix in url:
              if not sub_filter or sub_filter(url):
                  return s
      return None
  \<close>
  The second argument is the sequence in which the \<open>for\<close> loop meets the requested
  sections.
\<close>

definition SUBFILTERS :: "(string \<times> (string \<Rightarrow> bool)) list" where
  "SUBFILTERS =
     [(''economics'', \<lambda>u. str_in ''/money/economics/thai_economics/'' u),
      (''investment'', \<lambda>u. str_in ''/money/investment/'' u),
      (''tech_innovation'', \<lambda>u. str_in ''/money/tech_innovation/'' u),
      (''politic'', \<lambda>u. str_in ''/news/politic/'' u),
      (''personal_finance'', \<lambda>u. str_in ''/money/personal_finance/'' u),
      (''business_marketing'', \<lambda>u. str_in ''/money/business_marketing/'' u)]"

definition SECTION_PREFIX :: "(string \<times> string) list" where
  "SECTION_PREFIX =
     [(''economics'', ''/money/economics''),
      (''investment'', ''/money/investment''),
      (''tech_innovation'', ''/money/tech_innovation''),
      (''politic'', ''/news/politic''),
      (''personal_finance'', ''/money/personal_finance''),
      (''business_marketing'', ''/money/business_marketing'')]"

fun which_section :: "string \<Rightarrow> string list \<Rightarrow> string option" where
  "which_section url [] = None"
| "which_section url (s # ss) =
     (case map_of SECTION_PREFIX s of
        None \<Rightarrow> which_section url ss
      | Some prefix \<Rightarrow>
          if prefix \<noteq> [] \<and> str_in prefix url then
            (case map_of SUBFILTERS s of
               None \<Rightarrow> Some s
             | Some sub_filter \<Rightarrow> if sub_filter url then Some s else which_section url ss)
          else which_section url ss)"



section \<open>The network\<close>

text \<open>
  The transport is outside the program: \<open>requests.get\<close> answers a request with a body
  or fails. The model takes it as an oracle: the answer to the \<open>k\<close>-th request of the
  run, for a URL and a timeout in seconds. A run carries the trace of its requests, of
  its calls of \<open>time.sleep\<close> (in milliseconds) and of its calls of \<open>print\<close>. A message
  is kept by its kind and the values formatted into it: the messages for a saved and
  for a failed article start with the characters U+2714 and U+2718, which not every
  console can encode.
  \<^verbatim>\<open>
  def fetch_text(url, timeout=5):
      try:
          headers = {'User-Agent': 'Mozilla/5.0'}
          response = requests.get(url, timeout=timeout, headers=headers)
          response.raise_for_status()
          return response.text
      except requests.exceptions.RequestException as e:
          raise e

  def fetch_with_fast_retry(url):
      try:
          return fetch_text(url, timeout=2)
      except Exception:
          time.sleep(0.2)
          return fetch_text(url, timeout=3)
  \<close>
\<close>

datatype net_failure = Timeout | HttpStatus nat | TransportFailure

datatype py_exn =
  RequestException net_failure | XmlError | AttributeError | ValueError | OverflowError
  | KeyError | UnicodeEncodeError

datatype message =
  MsgRequired
  | MsgFetching string
  | MsgSitemapFail string py_exn
  | MsgSaved string
  | MsgFail string py_exn
  | MsgDone nat nat nat

datatype event = Get string nat | Sleep nat | Print message

type_synonym network = "nat \<Rightarrow> string \<Rightarrow> nat \<Rightarrow> net_failure + string"

fun is_Get :: "event \<Rightarrow> bool" where
  "is_Get (Get u t) = True"
| "is_Get (Sleep ms) = False"
| "is_Get (Print m) = False"

definition fetch_text ::
  "network \<Rightarrow> string \<Rightarrow> nat \<Rightarrow> event list \<Rightarrow> (py_exn + string) \<times> event list" where
  "fetch_text net url timeout tr =
     ((case net (length (filter is_Get tr)) url timeout of
         Inl f \<Rightarrow> Inl (RequestException f)
       | Inr body \<Rightarrow> Inr body),
      tr @ [Get url timeout])"

definition fetch_with_fast_retry ::
  "network \<Rightarrow> string \<Rightarrow> event list \<Rightarrow> (py_exn + string) \<times> event list" where
  "fetch_with_fast_retry net url tr =
     (case fetch_text net url 2 tr of
        (Inr body, tr1) \<Rightarrow> (Inr body, tr1)
      | (Inl e, tr1) \<Rightarrow> fetch_text net url 3 (tr1 @ [Sleep 200]))"


section \<open>The environment of a run\<close>

text \<open>
  A \<open>datetime\<close> is its wall-clock reading, in microseconds since 0001-01-01T00:00:00,
  and its offset from UTC, in microseconds, when it has one. \<open>replace(tzinfo=None)\<close>
  keeps the reading and drops the offset.

  The parsers are library code. \<open>ET.fromstring\<close> is taken with the element lookups the
  program makes on its result: the \<open>sitemap\<close> elements and the \<open>url\<close> elements found
  in the document, in document order, each with the outcome of \<open>find('loc')\<close> and
  \<open>find('lastmod')\<close>: no such child (\<open>NoTag\<close>), or a child with its \<open>.text\<close>, which
  is \<open>None\<close> for an empty element. It is \<open>None\<close> when the parser raises, and when the
  first \<open>findall\<close> raises: for a root without a namespace the prefix \<open>ns\<close> is unbound.
  Both end the work on the document before it changes anything.
  \<open>BeautifulSoup\<close> is taken with the lookups of
  \<open>extract_article\<close>: the first \<open>meta\<close> tag with a given \<open>property\<close> or \<open>name\<close>, as
  the map of its attributes; the text of the first \<open>h1\<close>; and for a CSS selector the
  texts of the \<open>p\<close> elements inside the first element it selects.
\<close>

record datetime =
  wall :: int
  utcoffset :: "int option"

datatype find_text = NoTag | TagText "string option"

record url_el =
  u_loc :: find_text
  u_lastmod :: find_text

record xml_doc =
  sitemap_els :: "find_text list"
  url_els :: "url_el list"

type_synonym tag = "string \<rightharpoonup> string"

record soup =
  find_meta_property :: "string \<Rightarrow> tag option"
  find_meta_name :: "string \<Rightarrow> tag option"
  h1 :: "string option"
  select_one :: "string \<Rightarrow> string list option"

record env =
  GET :: network
  fromstring :: "string \<Rightarrow> xml_doc option"
  BeautifulSoup :: "string \<Rightarrow> soup"
  fromisoformat :: "string \<Rightarrow> datetime option"
  isoformat :: "datetime \<Rightarrow> string"
  py_int :: "string \<Rightarrow> int option"
  hash_rank :: "string \<Rightarrow> nat"
  datetime_now :: int
  time_time :: "nat \<Rightarrow> int"
  stdout_encodes :: "message \<Rightarrow> bool"

text \<open>
  \<open>py_int\<close> is \<open>int(s)\<close> on a string, \<open>None\<close> where it raises ValueError.
  \<open>hash_rank\<close> fixes the order in which a set of strings is iterated: the distinct
  elements by increasing rank. \<open>datetime_now\<close> is the reading of \<open>datetime.now()\<close>,
  \<open>time_time k\<close> is \<open>int(time.time())\<close> after \<open>k\<close> events of the trace.
  \<open>stdout_encodes m\<close> tells whether the encoding of the console has every character of
  the message \<open>m\<close>; \<open>print\<close> raises UnicodeEncodeError when it has not. A \<open>Print\<close> event
  is a call of \<open>print\<close>, whether it returned or raised.
\<close>

definition py_print :: "env \<Rightarrow> message \<Rightarrow> event list \<Rightarrow> py_exn option \<times> event list" where
  \<comment> \<open>\<open>print(m)\<close>: the exception it raises, if any, and the trace\<close>
  "py_print E m tr =
     (if stdout_encodes E m then None else Some UnicodeEncodeError, tr @ [Print m])"


section \<open>The sitemap resolver\<close>

text \<open>
  \<^verbatim>\<open>
  def fetch_sitemap_urls(root_url, max_sitemaps=500):
      urls = []
      seen = set()

      def load_one(url):
          if len(seen) >= max_sitemaps: return
          try:
              xml_content = fetch_text(url, timeout=10)
              root = ET.fromstring(xml_content)
              ns = {'ns': root.tag.split('}')[0].strip('{')} if '}' in root.tag else {}
              for sitemap in root.findall('.//ns:sitemap', ns) or root.findall('.//sitemap'):
                  loc = sitemap.find('ns:loc', ns).text if ns else sitemap.find('loc').text
                  if loc and loc not in seen:
                      seen.add(loc)
                      load_one(loc)
              for url_tag in root.findall('.//ns:url', ns) or root.findall('.//url'):
                  loc = url_tag.find('ns:loc', ns).text if ns else url_tag.find('loc').text
                  lastmod_tag = url_tag.find('ns:lastmod', ns) if ns else url_tag.find('lastmod')
                  lastmod = None
                  if lastmod_tag is not None:
                      try:
                          lastmod = datetime.fromisoformat(lastmod_tag.text.replace('Z', '+00:00'))
                      except: pass
                  if loc: urls.append({'loc': loc, 'lastmod': lastmod})
          except Exception as e:
              print(f"[sitemap] fail: {url} -> {e}")

      load_one(root_url)
      return urls
  \<close>
  \<open>urls\<close> and \<open>seen\<close> are shared by all calls of \<open>load_one\<close>, so they are a state
  passed through them, with the trace. An exception inside the \<open>try\<close> ends the work on
  that document and keeps what the state holds by then; the handler prints it. An
  exception of this \<open>print\<close> leaves \<open>load_one\<close>: it reaches the \<open>try\<close> of the call
  that was working on the parent document, or the caller of \<open>fetch_sitemap_urls\<close>.
  \<open>XmlError\<close> stands for the exceptions of the parser and of the element lookups.
  The limit of Python's call stack is left out.
\<close>

record sitemap_entry =
  loc :: string
  lastmod :: "datetime option"

record sm_state =
  urls :: "sitemap_entry list"
  seen :: "string fset"
  trace :: "event list"

fun load_urls ::
  "env \<Rightarrow> url_el list \<Rightarrow> sitemap_entry list \<Rightarrow> py_exn option \<times> sitemap_entry list" where
  "load_urls E [] us = (None, us)"
| "load_urls E (u # rest) us =
     (case u_loc u of
        NoTag \<Rightarrow> (Some AttributeError, us)
      | TagText l \<Rightarrow>
          (let lm = (case u_lastmod u of
                       NoTag \<Rightarrow> None
                     | TagText None \<Rightarrow> None
                     | TagText (Some t) \<Rightarrow>
                         fromisoformat E (replace_char (CHR ''Z'') ''+00:00'' t))
           in case l of
                None \<Rightarrow> load_urls E rest us
              | Some l' \<Rightarrow>
                  if l' \<noteq> [] then load_urls E rest (us @ [\<lparr>loc = l', lastmod = lm\<rparr>])
                  else load_urls E rest us))"

definition sitemap_fail ::
  "env \<Rightarrow> string \<Rightarrow> py_exn \<Rightarrow> sm_state \<Rightarrow> py_exn option \<times> sm_state" where
  \<comment> \<open>the \<open>except\<close> handler of \<open>load_one\<close>\<close>
  "sitemap_fail E url e s =
     (case py_print E (MsgSitemapFail url e) (trace s) of
        (r, tr) \<Rightarrow> (r, s\<lparr>trace := tr\<rparr>))"

function load_one :: "env \<Rightarrow> int \<Rightarrow> string \<Rightarrow> sm_state \<Rightarrow> py_exn option \<times> sm_state"
  and load_sitemaps ::
    "env \<Rightarrow> int \<Rightarrow> find_text list \<Rightarrow> sm_state \<Rightarrow> py_exn option \<times> sm_state"
where
  "load_one E max_sitemaps url s =
     (if int (fcard (seen s)) \<ge> max_sitemaps then (None, s)
      else (case fetch_text (GET E) url 10 (trace s) of
              (Inl e, tr) \<Rightarrow> sitemap_fail E url e (s\<lparr>trace := tr\<rparr>)
            | (Inr xml_content, tr) \<Rightarrow>
                (case fromstring E xml_content of
                   None \<Rightarrow> sitemap_fail E url XmlError (s\<lparr>trace := tr\<rparr>)
                 | Some root \<Rightarrow>
                     (case load_sitemaps E max_sitemaps (sitemap_els root) (s\<lparr>trace := tr\<rparr>) of
                        (Some e, s1) \<Rightarrow> sitemap_fail E url e s1
                      | (None, s1) \<Rightarrow>
                          (case load_urls E (url_els root) (urls s1) of
                             (Some e, us) \<Rightarrow> sitemap_fail E url e (s1\<lparr>urls := us\<rparr>)
                           | (None, us) \<Rightarrow> (None, s1\<lparr>urls := us\<rparr>))))))"
| "load_sitemaps E max_sitemaps [] s = (None, s)"
| "load_sitemaps E max_sitemaps (sm # rest) s =
     (case sm of
        NoTag \<Rightarrow> (Some AttributeError, s)
      | TagText None \<Rightarrow> load_sitemaps E max_sitemaps rest s
      | TagText (Some l) \<Rightarrow>
          if l \<noteq> [] \<and> l |\<notin>| seen s
          then (case load_one E max_sitemaps l (s\<lparr>seen := finsert l (seen s)\<rparr>) of
                  (Some e, s1) \<Rightarrow> (Some e, s1)
                | (None, s1) \<Rightarrow> load_sitemaps E max_sitemaps rest s1)
          else load_sitemaps E max_sitemaps rest s)"
  by pat_completeness auto

text \<open>
  The calls are nested: the loop over the \<open>sitemap\<close> elements goes on in the state that
  the inner \<open>load_one\<close> leaves. Termination needs that \<open>seen\<close> never shrinks, which is
  proved first for the arguments on which the functions are known to return.
\<close>

lemma seen_sitemap_fail: "seen (snd (sitemap_fail E url e s)) = seen s"
  by (simp add: sitemap_fail_def split: prod.splits)

lemma seen_mono_dom:
  "load_one_load_sitemaps_dom (Inl (E, m, url, s)) \<Longrightarrow>
     seen s |\<subseteq>| seen (snd (load_one E m url s))"
  "load_one_load_sitemaps_dom (Inr (E, m, els, s)) \<Longrightarrow>
     seen s |\<subseteq>| seen (snd (load_sitemaps E m els s))"
proof (induction E m url s and E m els s rule: load_one_load_sitemaps.pinduct)
  case (1 E max_sitemaps url s)
  note dom = 1(1) and IH = 1(2)
  show ?case
  proof (cases "max_sitemaps \<le> int (fcard (seen s))")
    case True
    then show ?thesis using dom by (simp add: load_one.psimps)
  next
    case False
    obtain r tr where ft: "fetch_text (GET E) url 10 (trace s) = (r, tr)"
      by (cases "fetch_text (GET E) url 10 (trace s)")
    show ?thesis
    proof (cases r)
      case (Inl e)
      then show ?thesis using dom False ft by (simp add: load_one.psimps seen_sitemap_fail)
    next
      case (Inr b)
      show ?thesis
      proof (cases "fromstring E b")
        case None
        then show ?thesis using dom False ft Inr
          by (simp add: load_one.psimps seen_sitemap_fail)
      next
        case (Some root)
        have "seen (s\<lparr>trace := tr\<rparr>) |\<subseteq>|
              seen (snd (load_sitemaps E max_sitemaps (sitemap_els root) (s\<lparr>trace := tr\<rparr>)))"
          using IH [OF False ft [symmetric] Inr Some] .
        then show ?thesis using dom False ft Inr Some
          by (auto simp: load_one.psimps seen_sitemap_fail split: prod.splits option.splits)
      qed
    qed
  qed
next
  case (2 E max_sitemaps s)
  then show ?case by (simp add: load_sitemaps.psimps)
next
  case (3 E max_sitemaps sm rest s)
  note dom = 3(1)
  show ?case
  proof (cases sm)
    case NoTag
    then show ?thesis using dom by (simp add: load_sitemaps.psimps)
  next
    case (TagText t)
    show ?thesis
    proof (cases t)
      case None
      then show ?thesis using dom TagText 3(2) by (simp add: load_sitemaps.psimps)
    next
      case (Some l)
      show ?thesis
      proof (cases "l \<noteq> [] \<and> l |\<notin>| seen s")
        case True
        obtain r s1 where lo: "load_one E max_sitemaps l (s\<lparr>seen := finsert l (seen s)\<rparr>) = (r, s1)"
          by (cases "load_one E max_sitemaps l (s\<lparr>seen := finsert l (seen s)\<rparr>)")
        have a: "seen (s\<lparr>seen := finsert l (seen s)\<rparr>) |\<subseteq>| seen s1"
          using 3(3) [OF TagText Some True] lo by simp
        have s0: "seen s |\<subseteq>| seen (s\<lparr>seen := finsert l (seen s)\<rparr>)" by auto
        show ?thesis
        proof (cases r)
          case None
          have b: "seen s1 |\<subseteq>| seen (snd (load_sitemaps E max_sitemaps rest s1))"
            using 3(4) [OF TagText Some True lo [symmetric] None] .
          from s0 a b have "seen s |\<subseteq>| seen (snd (load_sitemaps E max_sitemaps rest s1))"
            by blast
          then show ?thesis using dom TagText Some True lo None
            by (simp add: load_sitemaps.psimps)
        next
          case (Some e)
          from s0 a have "seen s |\<subseteq>| seen s1" by blast
          then show ?thesis using dom TagText \<open>t = Some l\<close> True lo Some
            by (simp add: load_sitemaps.psimps)
        qed
      next
        case False
        then show ?thesis using dom TagText Some 3(5) [OF TagText Some False]
          by (auto simp: load_sitemaps.psimps)
      qed
    qed
  qed
qed

lemma seen_card_dom:
  assumes "load_one_load_sitemaps_dom (Inl (E, m, l, s\<lparr>seen := finsert l (seen s)\<rparr>))"
    and "load_one E m l (s\<lparr>seen := finsert l (seen s)\<rparr>) = (r, s1)"
  shows "fcard (seen s) \<le> fcard (seen s1)"
proof -
  have "seen s |\<subseteq>| seen (s\<lparr>seen := finsert l (seen s)\<rparr>)" by auto
  also have "\<dots> |\<subseteq>| seen (snd (load_one E m l (s\<lparr>seen := finsert l (seen s)\<rparr>)))"
    using assms(1) by (rule seen_mono_dom(1))
  finally show ?thesis using assms(2) by (simp add: fcard_mono)
qed

termination load_one
  apply (relation "measures
    [\<lambda>x. case x of Inl (E, m, url, s) \<Rightarrow> nat (m - int (fcard (seen s)))
                 | Inr (E, m, els, s) \<Rightarrow> nat (m - int (fcard (seen s))),
     \<lambda>x. case x of Inl (E, m, url, s) \<Rightarrow> (if int (fcard (seen s)) \<ge> m then 0 else 2)
                 | Inr (E, m, els, s) \<Rightarrow> 1,
     \<lambda>x. case x of Inl (E, m, url, s) \<Rightarrow> 0
                 | Inr (E, m, els, s) \<Rightarrow> length els]")
       apply simp
      apply (auto simp: fetch_text_def)[1]
     apply simp
    apply (auto simp: fcard_finsert_disjoint)[1]
  subgoal for E max_sitemaps sm rest s x2 l r s1
    using seen_card_dom [of E max_sitemaps l s r s1] by auto
  apply simp
  done

declare load_one.simps [simp del]

definition fetch_sitemap_urls ::
  "env \<Rightarrow> string \<Rightarrow> int \<Rightarrow> event list \<Rightarrow> (py_exn + sitemap_entry list) \<times> event list" where
  "fetch_sitemap_urls E root_url max_sitemaps tr =
     (case load_one E max_sitemaps root_url \<lparr>urls = [], seen = {||}, trace = tr\<rparr> of
        (Some e, s) \<Rightarrow> (Inl e, trace s)
      | (None, s) \<Rightarrow> (Inr (urls s), trace s))"


section \<open>The article extractor\<close>

text \<open>
  \<^verbatim>\<open>
  def normalize_date(date_str):
      if not date_str: return None
      try:
          dt = datetime.fromisoformat(date_str.replace('Z', '+00:00'))
          return dt.isoformat()
      except:
          return None

  def extract_article(html, url):
      soup = BeautifulSoup(html, 'html.parser')
      headline = ""
      og_title = soup.find("meta", property="og:title")
      if og_title: headline = og_title.get("content")
      elif soup.h1: headline = soup.h1.get_text().strip()
      date_str = ""
      pub_time = soup.find("meta", property="article:published_time")
      if pub_time: date_str = pub_time.get("content")
      published_iso = normalize_date(date_str)
      content = ""
      candidates = ['main', 'article', '.article-content', '.content-article']
      for sel in candidates:
          container = soup.select_one(sel)
          if container:
              ps = container.find_all('p')
              paragraphs = [p.get_text().strip() for p in ps if len(p.get_text().strip()) > 2]
              if paragraphs:
                  content = "\n".join(paragraphs)
                  break
      summary = ""
      desc = soup.find("meta", property="og:description") or soup.find("meta", attrs={"name": "description"})
      if desc: summary = desc.get("content", "").strip()
      return {"url": url, "headline": headline, "summary": summary,
              "content": content, "published_iso": published_iso or ""}
  \<close>
  A tag that was found is true in a condition whatever it holds. \<open>tag.get(key)\<close> is
  \<open>None\<close> when the tag has no such attribute, so a value read this way is a string or
  \<open>None\<close>.
\<close>

record article_meta =
  meta_url :: string
  meta_headline :: "string option"
  meta_summary :: string
  meta_content :: string
  meta_published_iso :: string

definition normalize_date :: "env \<Rightarrow> string option \<Rightarrow> string option" where
  "normalize_date E date_str =
     (case date_str of
        None \<Rightarrow> None
      | Some d \<Rightarrow>
          if d = [] then None
          else (case fromisoformat E (replace_char (CHR ''Z'') ''+00:00'' d) of
                  None \<Rightarrow> None
                | Some dt \<Rightarrow> Some (isoformat E dt)))"

definition candidates :: "string list" where
  "candidates = [''main'', ''article'', ''.article-content'', ''.content-article'']"

fun content_of :: "soup \<Rightarrow> string list \<Rightarrow> string" where
  \<comment> \<open>the loop over the selectors; \<open>content\<close> stays empty when it is left without \<open>break\<close>\<close>
  "content_of sp [] = []"
| "content_of sp (sel # rest) =
     (case select_one sp sel of
        None \<Rightarrow> content_of sp rest
      | Some ps \<Rightarrow>
          (let paragraphs = map strip (filter (\<lambda>p. length (strip p) > 2) ps)
           in if paragraphs \<noteq> [] then join [CHR 0x0A] paragraphs
              else content_of sp rest))"

definition extract_article :: "env \<Rightarrow> string \<Rightarrow> string \<Rightarrow> article_meta" where
  "extract_article E html url =
     (let sp = BeautifulSoup E html;
          headline = (case find_meta_property sp ''og:title'' of
                        Some og_title \<Rightarrow> og_title ''content''
                      | None \<Rightarrow> (case h1 sp of
                                   Some t \<Rightarrow> Some (strip t)
                                 | None \<Rightarrow> Some []));
          date_str = (case find_meta_property sp ''article:published_time'' of
                        Some pub_time \<Rightarrow> pub_time ''content''
                      | None \<Rightarrow> Some []);
          published_iso = normalize_date E date_str;
          content = content_of sp candidates;
          desc = (case find_meta_property sp ''og:description'' of
                    Some t \<Rightarrow> Some t
                  | None \<Rightarrow> find_meta_name sp ''description'');
          summary = (case desc of
                       Some t \<Rightarrow> (case t ''content'' of Some c \<Rightarrow> strip c | None \<Rightarrow> strip [])
                     | None \<Rightarrow> [])
      in \<lparr>meta_url = url, meta_headline = headline, meta_summary = summary,
          meta_content = content,
          meta_published_iso = (case published_iso of
                                  None \<Rightarrow> []
                                | Some v \<Rightarrow> if v \<noteq> [] then v else [])\<rparr>)"


section \<open>The run\<close>

text \<open>
  \<^verbatim>\<open>
  def parse_args():
      args = {}
      for i, arg in enumerate(sys.argv):
          if arg.startswith('--'):
              key = arg[2:]
              val = sys.argv[i+1] if i + 1 < len(sys.argv) and not sys.argv[i+1].startswith('--') else True
              args[key] = val
      return args

  def csv_escape(val):
      if val is None: return ''
      s = str(val).replace('\n', ' ').strip()
      return s
  \<close>
  The value of an argument is the string that follows it, or \<open>True\<close> (\<open>Flag\<close>).
\<close>

datatype argval = Str string | Flag

fun parse_args :: "string list \<Rightarrow> (string \<rightharpoonup> argval) \<Rightarrow> (string \<rightharpoonup> argval)" where
  "parse_args [] args = args"
| "parse_args (arg # rest) args =
     (if startswith ''--'' arg then
        parse_args rest
          (args(drop 2 arg \<mapsto>
             (case rest of
                [] \<Rightarrow> Flag
              | nxt # _ \<Rightarrow> if \<not> startswith ''--'' nxt then Str nxt else Flag)))
      else parse_args rest args)"

definition csv_escape :: "string option \<Rightarrow> string" where
  "csv_escape val =
     (case val of
        None \<Rightarrow> []
      | Some v \<Rightarrow> strip (replace_char (CHR 0x0A) '' '' v))"

function replace_from :: "string \<Rightarrow> string \<Rightarrow> string \<Rightarrow> string" where
  \<comment> \<open>\<open>s.replace(old, new)\<close> for a non-empty \<open>old\<close>: the occurrences from the left,
      without overlap\<close>
  "replace_from old new [] = []"
| "replace_from old new (c # cs) =
     (if old \<noteq> [] \<and> startswith old (c # cs)
      then new @ replace_from old new (drop (length old) (c # cs))
      else c # replace_from old new cs)"
  by pat_completeness auto
termination
  by (relation "measure (\<lambda>(old, new, s). length s)") auto

definition str_replace :: "string \<Rightarrow> string \<Rightarrow> string \<Rightarrow> string" where
  \<comment> \<open>\<open>s.replace(old, new)\<close>; an empty \<open>old\<close> matches before every character and at
      the end\<close>
  "str_replace old new s =
     (if old = [] then new @ concat (map (\<lambda>c. c # new) s) else replace_from old new s)"

text \<open>
  \<^verbatim>\<open>
  def main():
      args = parse_args()
      sitemap_url = args.get('sitemap')
      if not sitemap_url:
          print("Error: --sitemap is required")
          return

      since_days = int(args.get('since-days', 1825))
      sections_str = args.get('sections', 'economics,investment,tech_innovation,politic')
      limit = int(args.get('limit', 0))
      out_json_base = args.get('out-json', 'data/thairath_dataset.json')
      out_csv_base = args.get('out-csv', 'data/thairath_dataset.csv')

      sections = [s.strip() for s in sections_str.split(',') if s.strip()]
      section_set = set(sections)
      since_date = datetime.now() - timedelta(days=since_days)

      print(f"[*] Fetching sitemap: {sitemap_url}")
      all_urls = fetch_sitemap_urls(sitemap_url)

      filtered = []
      seen_locs = set()
      for item in all_urls:
          sec = which_section(item['loc'], section_set)
          if sec and item['loc'] not in seen_locs:
              if item['lastmod'] and item['lastmod'].replace(tzinfo=None) < since_date.replace(tzinfo=None):
                  continue
              filtered.append(item)
              seen_locs.add(item['loc'])

      ok, skip, fail = 0, 0, 0
      results = {s: [] for s in sections}

      for item in filtered:
          loc = item['loc']
          sec = which_section(loc, section_set)
          try:
              html = fetch_with_fast_retry(loc)
              meta = extract_article(html, loc)
              record = {
                  "agency": "thairath",
                  "section": sec,
                  "id": extract_id_from_url(loc) or str(int(time.time())),
                  "published_iso": meta['published_iso'],
                  "headline": meta['headline'],
                  "summary": meta['summary'],
                  "content": meta['content'],
                  "url": loc
              }
              results[sec].append(record)
              ok += 1
              print(f"\u2714 saved: {loc}")
              time.sleep(0.05)
          except Exception as e:
              print(f"\u2718 fail: {loc} -> {e}")
              fail += 1

      for sec, items in results.items():
          if not items: continue
          csv_path = out_csv_base.replace('.csv', f'_{sec}.csv')
          with open(csv_path, 'w', encoding='utf-8-sig', newline='') as f:
              writer = csv.DictWriter(f, fieldnames=items[0].keys())
              writer.writeheader()
              writer.writerows(items)

      print(f"Done. OK: {ok}, Skip: {skip}, Fail: {fail}")
  \<close>
  (The two characters before \<open>saved\<close> and \<open>fail\<close> are written as escapes here.)
  An exception that leaves \<open>main\<close> ends the process with a non-zero status; a return
  from \<open>main\<close> ends it with status zero. The model gives the exception or the outcome,
  and the trace of the run. The files are written by library code, taken to succeed:
  the model keeps the path and the rows handed to each writer.

  In the processing loop an exception inside the \<open>try\<close> reaches the handler, which
  prints it and then counts it; an exception of the handler's own \<open>print\<close> leaves
  \<open>main\<close>. \<open>failures\<close> lists the exceptions that reached the handler.
\<close>

record article =
  agency :: string
  section' :: "string option"
  id' :: string
  published_iso :: string
  headline :: "string option"
  summary :: string
  content :: string
  url :: string

record run_state =
  results :: "(string \<times> article list) list"
  ok :: nat
  skip :: nat
  fail :: nat
  failures :: "(string \<times> py_exn) list"
  events :: "event list"

record run_result =
  final :: run_state
  written :: "(string \<times> article list) list"

datatype outcome = MissingSitemap | Done run_result

definition truthy :: "argval option \<Rightarrow> bool" where
  \<comment> \<open>the truth value of \<open>args.get(key)\<close>: \<open>None\<close> and the empty string are false\<close>
  "truthy v = (case v of None \<Rightarrow> False | Some Flag \<Rightarrow> True | Some (Str s) \<Rightarrow> s \<noteq> [])"

definition int_arg :: "env \<Rightarrow> argval option \<Rightarrow> int \<Rightarrow> py_exn + int" where
  \<comment> \<open>\<open>int(args.get(key, default))\<close>; \<open>int(True)\<close> is 1\<close>
  "int_arg E v dflt =
     (case v of
        None \<Rightarrow> Inr dflt
      | Some Flag \<Rightarrow> Inr 1
      | Some (Str s) \<Rightarrow> (case py_int E s of None \<Rightarrow> Inl ValueError | Some n \<Rightarrow> Inr n))"

definition sections_of :: "argval option \<Rightarrow> py_exn + string list" where
  \<comment> \<open>\<open>[s.strip() for s in sections_str.split(',') if s.strip()]\<close>; \<open>True\<close> has no
      \<open>split\<close>\<close>
  "sections_of v =
     (case (case v of None \<Rightarrow> Str ''economics,investment,tech_innovation,politic''
                    | Some a \<Rightarrow> a) of
        Flag \<Rightarrow> Inl AttributeError
      | Str sections_str \<Rightarrow>
          Inr (map strip (filter (\<lambda>s. strip s \<noteq> []) (split_on (CHR '','') sections_str))))"

definition since_date_of :: "int \<Rightarrow> int \<Rightarrow> py_exn + int" where
  \<comment> \<open>the reading of \<open>now - timedelta(days=since_days)\<close>. A \<open>timedelta\<close> holds at most
      999999999 days, a \<open>datetime\<close> lies in the years 1 to 9999 (3652059 days)\<close>
  "since_date_of now since_days =
     (if \<bar>since_days\<bar> > 999999999 then Inl OverflowError
      else (let r = now - since_days * 86400000000
            in if r < 0 \<or> r \<ge> 3652059 * 86400000000 then Inl OverflowError else Inr r))"

definition set_iter :: "env \<Rightarrow> string list \<Rightarrow> string list" where
  \<comment> \<open>the order in which \<open>set(xs)\<close> is iterated\<close>
  "set_iter E xs = sort_key (hash_rank E) (remdups xs)"

definition url_of :: "argval \<Rightarrow> string" where
  \<comment> \<open>the URL requested for the argument: \<open>requests\<close> takes \<open>str(url)\<close>\<close>
  "url_of v = (case v of Str s \<Rightarrow> s | Flag \<Rightarrow> ''True'')"

fun filter_loop ::
  "string list \<Rightarrow> int \<Rightarrow> sitemap_entry list \<Rightarrow> sitemap_entry list \<times> string fset \<Rightarrow>
   sitemap_entry list \<times> string fset" where
  \<comment> \<open>the first loop of \<open>main\<close>, on the state \<open>(filtered, seen_locs)\<close>\<close>
  "filter_loop section_set since_date [] st = st"
| "filter_loop section_set since_date (item # rest) (filtered, seen_locs) =
     (case which_section (loc item) section_set of
        None \<Rightarrow> filter_loop section_set since_date rest (filtered, seen_locs)
      | Some sec \<Rightarrow>
          if sec \<noteq> [] \<and> loc item |\<notin>| seen_locs then
            (case lastmod item of
               None \<Rightarrow>
                 filter_loop section_set since_date rest
                   (filtered @ [item], finsert (loc item) seen_locs)
             | Some lm \<Rightarrow>
                 if wall lm < since_date
                 then filter_loop section_set since_date rest (filtered, seen_locs)
                 else filter_loop section_set since_date rest
                        (filtered @ [item], finsert (loc item) seen_locs))
          else filter_loop section_set since_date rest (filtered, seen_locs))"

definition init_results :: "string list \<Rightarrow> (string \<times> article list) list" where
  \<comment> \<open>\<open>{s: [] for s in sections}\<close>\<close>
  "init_results sections = foldl (\<lambda>d s. AList.update s [] d) [] sections"

definition article_fail ::
  "env \<Rightarrow> string \<Rightarrow> py_exn \<Rightarrow> run_state \<Rightarrow> py_exn option \<times> run_state" where
  \<comment> \<open>the \<open>except\<close> handler of the second loop of \<open>main\<close>\<close>
  "article_fail E l e st =
     (case py_print E (MsgFail l e) (events st) of
        (Some e', tr) \<Rightarrow> (Some e', st\<lparr>failures := failures st @ [(l, e)], events := tr\<rparr>)
      | (None, tr) \<Rightarrow>
          (None, st\<lparr>fail := fail st + 1, failures := failures st @ [(l, e)],
                    events := tr\<rparr>))"

definition process_item ::
  "env \<Rightarrow> string list \<Rightarrow> sitemap_entry \<Rightarrow> run_state \<Rightarrow> py_exn option \<times> run_state" where
  \<comment> \<open>one round of the second loop of \<open>main\<close>\<close>
  "process_item E section_set item st =
     (let sec = which_section (loc item) section_set
      in case fetch_with_fast_retry (GET E) (loc item) (events st) of
           (Inl e, tr) \<Rightarrow> article_fail E (loc item) e (st\<lparr>events := tr\<rparr>)
         | (Inr html, tr) \<Rightarrow>
             (let meta = extract_article E html (loc item);
                  record = \<lparr>agency = ''thairath'',
                            section' = sec,
                            id' = record_id (loc item) (time_time E (length tr)),
                            published_iso = meta_published_iso meta,
                            headline = meta_headline meta,
                            summary = meta_summary meta,
                            content = meta_content meta,
                            url = loc item\<rparr>
              in case (case sec of None \<Rightarrow> None
                               | Some k \<Rightarrow> map_option (\<lambda>items. (k, items)) (map_of (results st) k)) of
                   None \<Rightarrow> article_fail E (loc item) KeyError (st\<lparr>events := tr\<rparr>)
                 | Some (k, items) \<Rightarrow>
                     (let st1 = st\<lparr>results := AList.update k (items @ [record]) (results st),
                                   ok := ok st + 1\<rparr>
                      in case py_print E (MsgSaved (loc item)) tr of
                           (Some e, tr1) \<Rightarrow> article_fail E (loc item) e (st1\<lparr>events := tr1\<rparr>)
                         | (None, tr1) \<Rightarrow> (None, st1\<lparr>events := tr1 @ [Sleep 50]\<rparr>))))"

fun process_queue ::
  "env \<Rightarrow> string list \<Rightarrow> sitemap_entry list \<Rightarrow> run_state \<Rightarrow> py_exn option \<times> run_state" where
  "process_queue E section_set [] st = (None, st)"
| "process_queue E section_set (item # rest) st =
     (case process_item E section_set item st of
        (Some e, st1) \<Rightarrow> (Some e, st1)
      | (None, st1) \<Rightarrow> process_queue E section_set rest st1)"

fun save_outputs ::
  "argval \<Rightarrow> (string \<times> article list) list \<Rightarrow> py_exn + (string \<times> article list) list" where
  \<comment> \<open>the third loop of \<open>main\<close>: the path and the rows of each file written\<close>
  "save_outputs out_csv_base [] = Inr []"
| "save_outputs out_csv_base ((sec, items) # rest) =
     (if items = [] then save_outputs out_csv_base rest
      else (case out_csv_base of
              Flag \<Rightarrow> Inl AttributeError
            | Str base \<Rightarrow>
                (case save_outputs out_csv_base rest of
                   Inl e \<Rightarrow> Inl e
                 | Inr ws \<Rightarrow>
                     Inr ((str_replace ''.csv'' (''_'' @ sec @ ''.csv'') base, items) # ws))))"

definition crawl ::
  "env \<Rightarrow> argval \<Rightarrow> string list \<Rightarrow> int \<Rightarrow> argval \<Rightarrow> (py_exn + outcome) \<times> event list" where
  \<comment> \<open>\<open>main\<close> from the message about the sitemap on\<close>
  "crawl E sitemap_url sections since_date out_csv_base =
     (let section_set = set_iter E sections
      in case py_print E (MsgFetching (url_of sitemap_url)) [] of
           (Some e, tr0) \<Rightarrow> (Inl e, tr0)
         | (None, tr0) \<Rightarrow>
             (case fetch_sitemap_urls E (url_of sitemap_url) 500 tr0 of
                (Inl e, tr) \<Rightarrow> (Inl e, tr)
              | (Inr all_urls, tr) \<Rightarrow>
                  (let (filtered, seen_locs) =
                         filter_loop section_set since_date all_urls ([], {||})
                   in case process_queue E section_set filtered
                             \<lparr>results = init_results sections, ok = 0, skip = 0, fail = 0,
                              failures = [], events = tr\<rparr> of
                        (Some e, st) \<Rightarrow> (Inl e, events st)
                      | (None, st) \<Rightarrow>
                          (case save_outputs out_csv_base (results st) of
                             Inl e \<Rightarrow> (Inl e, events st)
                           | Inr ws \<Rightarrow>
                               (case py_print E (MsgDone (ok st) (skip st) (fail st))
                                       (events st) of
                                  (Some e, tr1) \<Rightarrow> (Inl e, tr1)
                                | (None, tr1) \<Rightarrow>
                                    (Inr (Done \<lparr>final = st, written = ws\<rparr>), tr1))))))"

definition main :: "env \<Rightarrow> string list \<Rightarrow> (py_exn + outcome) \<times> event list" where
  "main E argv =
     (let args = parse_args argv Map.empty
      in if \<not> truthy (args ''sitemap'') then
           (case py_print E MsgRequired [] of
              (Some e, tr) \<Rightarrow> (Inl e, tr)
            | (None, tr) \<Rightarrow> (Inr MissingSitemap, tr))
         else (case int_arg E (args ''since-days'') 1825 of
                 Inl e \<Rightarrow> (Inl e, [])
               | Inr since_days \<Rightarrow>
                   (case int_arg E (args ''limit'') 0 of
                      Inl e \<Rightarrow> (Inl e, [])
                    | Inr limit \<Rightarrow>
                        (case sections_of (args ''sections'') of
                           Inl e \<Rightarrow> (Inl e, [])
                         | Inr sections \<Rightarrow>
                             (case since_date_of (datetime_now E) since_days of
                                Inl e \<Rightarrow> (Inl e, [])
                              | Inr since_date \<Rightarrow>
                                  crawl E
                                    (case args ''sitemap'' of Some v \<Rightarrow> v | None \<Rightarrow> Flag)
                                    sections since_date
                                    (case args ''out-csv'' of
                                       Some v \<Rightarrow> v
                                     | None \<Rightarrow> Str ''data/thairath_dataset.csv''))))))"



definition utc_reading :: "datetime \<Rightarrow> int" where
  \<comment> \<open>the specification's words: a timestamp is a point in time. The reading of the
      UTC clock at that point: the offset is taken off the wall-clock reading; a
      datetime without an offset is read as UTC\<close>
  "utc_reading d = wall d - (case utcoffset d of None \<Rightarrow> 0 | Some off \<Rightarrow> off)"

definition keeps :: "string list \<Rightarrow> int \<Rightarrow> string fset \<Rightarrow> sitemap_entry \<Rightarrow> bool" where
  \<comment> \<open>the condition under which the first loop of \<open>main\<close> appends the item\<close>
  "keeps section_set since_date seen_locs item =
     (which_section (loc item) section_set \<noteq> None \<and> loc item |\<notin>| seen_locs \<and>
      (case lastmod item of None \<Rightarrow> True | Some lm \<Rightarrow> \<not> wall lm < since_date))"


section \<open>An example site\<close>

text \<open>
  A small site on which the program is run in the examples below. Its two sitemap
  documents name each other; the first lists one article, the second two. The first
  article has two paragraphs; the \<open>og:title\<close> tag of the second has no \<open>content\<close>
  attribute; the third is not on the server. \<open>demo_env\<close> answers every request for
  one of the first four URLs with the body of the same name and fails every other
  request; its parsers give, for these bodies, the lookups that the libraries give;
  its console encodes every message.
  Its \<open>int\<close> reads the strings of digits and rejects every other string, which is what
  \<open>int\<close> does on the arguments of the examples.
  \<open>flaky_net\<close> is a network whose first request times out.
\<close>

definition url_a :: string where
  "url_a = ''https://x/a.xml''"

definition url_b :: string where
  "url_b = ''https://x/b.xml''"

definition url_p :: string where
  "url_p = ''https://x/news/politic/12345''"

definition url_q :: string where
  "url_q = ''https://x/money/investment/7''"

definition url_r :: string where
  "url_r = ''https://x/news/politic/9''"

definition xml_a :: string where
  \<open>xml_a = ''<sitemapindex xmlns="http://www.sitemaps.org/schemas/sitemap/0.9"><sitemap><loc>https://x/b.xml</loc></sitemap><url><loc>https://x/news/politic/12345</loc></url></sitemapindex>''\<close>

definition xml_b :: string where
  \<open>xml_b = ''<sitemapindex xmlns="http://www.sitemaps.org/schemas/sitemap/0.9"><sitemap><loc>https://x/a.xml</loc></sitemap><url><loc>https://x/money/investment/7</loc></url><url><loc>https://x/news/politic/9</loc></url></sitemapindex>''\<close>

definition html_p :: string where
  \<open>html_p = ''<html><head><meta property="og:title" content="H"><meta property="article:published_time" content="2024-01-01T00:00:00Z"></head><body><article><p>Body text here.</p><p>More text.</p></article></body></html>''\<close>

definition html_q :: string where
  \<open>html_q = ''<html><head><meta property="og:title"></head><body><h1>T</h1></body></html>''\<close>

definition doc_a :: xml_doc where
  "doc_a = \<lparr>sitemap_els = [TagText (Some url_b)],
            url_els = [\<lparr>u_loc = TagText (Some url_p), u_lastmod = NoTag\<rparr>]\<rparr>"

definition doc_b :: xml_doc where
  "doc_b = \<lparr>sitemap_els = [TagText (Some url_a)],
            url_els = [\<lparr>u_loc = TagText (Some url_q), u_lastmod = NoTag\<rparr>,
                       \<lparr>u_loc = TagText (Some url_r), u_lastmod = NoTag\<rparr>]\<rparr>"

definition soup_p :: soup where
  "soup_p =
     \<lparr>find_meta_property =
        (\<lambda>p. if p = ''og:title''
             then Some [''property'' \<mapsto> ''og:title'', ''content'' \<mapsto> ''H'']
             else if p = ''article:published_time''
             then Some [''property'' \<mapsto> ''article:published_time'',
                        ''content'' \<mapsto> ''2024-01-01T00:00:00Z'']
             else None),
      find_meta_name = (\<lambda>n. None),
      h1 = None,
      select_one =
        (\<lambda>sel. if sel = ''article'' then Some [''Body text here.'', ''More text.'']
               else None)\<rparr>"

definition soup_q :: soup where
  "soup_q =
     \<lparr>find_meta_property =
        (\<lambda>p. if p = ''og:title'' then Some [''property'' \<mapsto> ''og:title''] else None),
      find_meta_name = (\<lambda>n. None),
      h1 = Some ''T'',
      select_one = (\<lambda>sel. None)\<rparr>"

definition soup_empty :: soup where
  "soup_empty =
     \<lparr>find_meta_property = (\<lambda>p. None), find_meta_name = (\<lambda>n. None), h1 = None,
      select_one = (\<lambda>sel. None)\<rparr>"

definition demo_env :: env where
  "demo_env =
     \<lparr>GET = (\<lambda>k u timeout.
               if u = url_a then Inr xml_a
               else if u = url_b then Inr xml_b
               else if u = url_p then Inr html_p
               else if u = url_q then Inr html_q
               else Inl (HttpStatus 404)),
      fromstring = (\<lambda>s. if s = xml_a then Some doc_a
                         else if s = xml_b then Some doc_b
                         else None),
      BeautifulSoup = (\<lambda>s. if s = html_p then soup_p
                            else if s = html_q then soup_q
                            else soup_empty),
      fromisoformat = (\<lambda>s. if s = ''2024-01-01T00:00:00+00:00''
                            then Some \<lparr>wall = 63839664000000000, utcoffset = Some 0\<rparr>
                            else None),
      isoformat = (\<lambda>d. if d = \<lparr>wall = 63839664000000000, utcoffset = Some 0\<rparr>
                        then ''2024-01-01T00:00:00+00:00'' else ''0001-01-01T00:00:00''),
      py_int = (\<lambda>s. if s \<noteq> [] \<and> list_all is_digit s
                     then Some (foldl (\<lambda>n c. 10 * n + (int (of_char c) - 48)) 0 s)
                     else None),
      hash_rank = (\<lambda>s. length s),
      datetime_now = 63844891200000000,
      time_time = (\<lambda>k. 1709294400),
      stdout_encodes = (\<lambda>m. True)\<rparr>"



definition flaky_net :: network where
  "flaky_net = (\<lambda>k u timeout. if k = 0 then Inl Timeout else Inr ''ok'')"

definition rec_p :: article where
  \<comment> \<open>the record of the first article\<close>
  "rec_p = \<lparr>agency = ''thairath'', section' = Some ''politic'', id' = ''12345'',
            published_iso = ''2024-01-01T00:00:00+00:00'', headline = Some ''H'',
            summary = [], content = ''Body text here.'' @ [CHR 0x0A] @ ''More text.'',
            url = url_p\<rparr>"

definition rec_q :: article where
  \<comment> \<open>the record of the second article\<close>
  "rec_q = \<lparr>agency = ''thairath'', section' = Some ''investment'', id' = ''7'',
            published_iso = [], headline = None, summary = [], content = [],
            url = url_q\<rparr>"

definition demo_argv :: "string list" where
  "demo_argv =
     [''crawl_thairath.py'', ''--sitemap'', url_a, ''--sections'', ''politic,investment'']"

definition demo_result :: run_result where
  \<comment> \<open>the outcome of the run on \<open>demo_argv\<close>\<close>
  "demo_result =
     \<lparr>final = \<lparr>results = [(''politic'', [rec_p]), (''investment'', [rec_q])],
               ok = 2, skip = 0, fail = 1,
               failures = [(url_r, RequestException (HttpStatus 404))],
               events = [Print (MsgFetching url_a),
                         Get url_a 10, Get url_b 10, Get url_a 10,
                         Get url_p 2, Print (MsgSaved url_p), Sleep 50,
                         Get url_q 2, Print (MsgSaved url_q), Sleep 50,
                         Get url_r 2, Sleep 200, Get url_r 3,
                         Print (MsgFail url_r (RequestException (HttpStatus 404)))]\<rparr>,
      written = [(''data/thairath_dataset_politic.csv'', [rec_p]),
                 (''data/thairath_dataset_investment.csv'', [rec_q])]\<rparr>"



section \<open>Properties of the strings\<close>



lemma str_nat_nonempty: "str_nat n \<noteq> []"
  by (subst str_nat.simps) simp

lemma str_int_nonempty: "str_int n \<noteq> []"
  by (simp add: str_int_def str_nat_nonempty)

section \<open>The id of a record\<close>

lemma seg_end_not_digit: "seg_end r \<Longrightarrow> r = [] \<or> \<not> is_digit (hd r)"
  by (auto simp: seg_end_def is_digit_def split: list.splits)

lemma takeWhile_digits_app:
  assumes "list_all is_digit d" "seg_end r"
  shows "takeWhile is_digit (d @ r) = d" "dropWhile is_digit (d @ r) = r"
proof -
  from assms(2) have r: "r = [] \<or> \<not> is_digit (hd r)" by (rule seg_end_not_digit)
  from assms(1) have d: "\<forall>x\<in>set d. is_digit x" by (simp add: list_all_iff)
  show "takeWhile is_digit (d @ r) = d"
    using r d by (cases r) (auto simp: takeWhile_append2)
  show "dropWhile is_digit (d @ r) = r"
    using r d by (cases r) (auto simp: dropWhile_append2)
qed

lemma numeric_seg_at_0:
  "numeric_seg_at (c # cs) 0 d \<longleftrightarrow>
     c = CHR ''/'' \<and> d \<noteq> [] \<and> d = takeWhile is_digit cs \<and> seg_end (dropWhile is_digit cs)"
proof
  assume a: "numeric_seg_at (c # cs) 0 d"
  then have c: "c = CHR ''/''" and d: "d \<noteq> []" and dig: "list_all is_digit d"
    and tk: "take (length d) cs = d" and se: "seg_end (drop (length d) cs)"
    by (auto simp: numeric_seg_at_def)
  have cs: "cs = d @ drop (length d) cs" using tk by (metis append_take_drop_id)
  have "takeWhile is_digit cs = d" "dropWhile is_digit cs = drop (length d) cs"
    using takeWhile_digits_app [OF dig se] cs by auto
  with c d se show "c = CHR ''/'' \<and> d \<noteq> [] \<and> d = takeWhile is_digit cs \<and> seg_end (dropWhile is_digit cs)"
    by simp
next
  assume a: "c = CHR ''/'' \<and> d \<noteq> [] \<and> d = takeWhile is_digit cs \<and> seg_end (dropWhile is_digit cs)"
  then have d: "d = takeWhile is_digit cs" and c: "c = CHR ''/''"
    and ne: "takeWhile is_digit cs \<noteq> []" and se: "seg_end (dropWhile is_digit cs)"
    by auto
  have 1: "list_all is_digit (takeWhile is_digit cs)"
    unfolding list_all_iff by (auto dest: set_takeWhileD)
  have 2: "take (length (takeWhile is_digit cs)) cs = takeWhile is_digit cs"
    by (rule takeWhile_eq_take [symmetric])
  have 3: "drop (length (takeWhile is_digit cs)) cs = dropWhile is_digit cs"
    by (rule dropWhile_eq_drop [symmetric])
  show "numeric_seg_at (c # cs) 0 d"
    unfolding d numeric_seg_at_def using c ne se 1 2 3 by simp
qed

lemma numeric_seg_at_Suc: "numeric_seg_at (c # cs) (Suc i) d = numeric_seg_at cs i d"
  by (simp add: numeric_seg_at_def)

lemma re_search_id_None: "re_search_id u = None \<longleftrightarrow> (\<forall>i d. \<not> numeric_seg_at u i d)"
proof (induction u)
  case Nil
  then show ?case by (simp add: numeric_seg_at_def)
next
  case (Cons c cs)
  show ?case
  proof (cases "c = CHR ''/'' \<and> takeWhile is_digit cs \<noteq> [] \<and> seg_end (dropWhile is_digit cs)")
    case True
    then have "numeric_seg_at (c # cs) 0 (takeWhile is_digit cs)"
      by (simp add: numeric_seg_at_0)
    with True show ?thesis by auto
  next
    case False
    then have no0: "\<And>d. \<not> numeric_seg_at (c # cs) 0 d" by (auto simp: numeric_seg_at_0)
    have "(\<forall>i d. \<not> numeric_seg_at (c # cs) i d) \<longleftrightarrow> (\<forall>i d. \<not> numeric_seg_at cs i d)"
    proof
      assume "\<forall>i d. \<not> numeric_seg_at (c # cs) i d"
      then show "\<forall>i d. \<not> numeric_seg_at cs i d"
        using numeric_seg_at_Suc by blast
    next
      assume h: "\<forall>i d. \<not> numeric_seg_at cs i d"
      show "\<forall>i d. \<not> numeric_seg_at (c # cs) i d"
      proof (intro allI)
        fix i d show "\<not> numeric_seg_at (c # cs) i d"
          using no0 h by (cases i) (auto simp: numeric_seg_at_Suc)
      qed
    qed
    moreover have "re_search_id (c # cs) = re_search_id cs" using False by auto
    ultimately show ?thesis using Cons.IH by simp
  qed
qed

lemma re_search_id_Some:
  "re_search_id u = Some d \<longleftrightarrow>
     (\<exists>i. numeric_seg_at u i d \<and> (\<forall>j<i. \<forall>d'. \<not> numeric_seg_at u j d'))"
proof (induction u)
  case Nil
  then show ?case by (simp add: numeric_seg_at_def)
next
  case (Cons c cs)
  show ?case
  proof (cases "c = CHR ''/'' \<and> takeWhile is_digit cs \<noteq> [] \<and> seg_end (dropWhile is_digit cs)")
    case True
    then have at0: "numeric_seg_at (c # cs) 0 (takeWhile is_digit cs)"
      by (simp add: numeric_seg_at_0)
    have res: "re_search_id (c # cs) = Some (takeWhile is_digit cs)" using True by simp
    show ?thesis
    proof
      assume "re_search_id (c # cs) = Some d"
      with res have "d = takeWhile is_digit cs" by simp
      with at0 have "numeric_seg_at (c # cs) 0 d \<and> (\<forall>j<0. \<forall>d'. \<not> numeric_seg_at (c # cs) j d')"
        by simp
      then show "\<exists>i. numeric_seg_at (c # cs) i d \<and> (\<forall>j<i. \<forall>d'. \<not> numeric_seg_at (c # cs) j d')"
        by blast
    next
      assume "\<exists>i. numeric_seg_at (c # cs) i d \<and> (\<forall>j<i. \<forall>d'. \<not> numeric_seg_at (c # cs) j d')"
      then obtain i where i: "numeric_seg_at (c # cs) i d"
        and least: "\<forall>j<i. \<forall>d'. \<not> numeric_seg_at (c # cs) j d'" by blast
      have "i = 0"
      proof (rule ccontr)
        assume "i \<noteq> 0"
        then have "0 < i" by simp
        with least at0 show False by blast
      qed
      with i have "d = takeWhile is_digit cs" by (simp add: numeric_seg_at_0)
      with res show "re_search_id (c # cs) = Some d" by simp
    qed
  next
    case False
    then have no0: "\<And>d. \<not> numeric_seg_at (c # cs) 0 d" by (auto simp: numeric_seg_at_0)
    have res: "re_search_id (c # cs) = re_search_id cs" using False by auto
    show ?thesis
    proof
      assume "re_search_id (c # cs) = Some d"
      with res Cons.IH obtain i where i: "numeric_seg_at cs i d"
        and least: "\<forall>j<i. \<forall>d'. \<not> numeric_seg_at cs j d'" by auto
      have "numeric_seg_at (c # cs) (Suc i) d" using i by (simp add: numeric_seg_at_Suc)
      moreover have "\<forall>j<Suc i. \<forall>d'. \<not> numeric_seg_at (c # cs) j d'"
      proof (intro allI impI)
        fix j d' assume "j < Suc i"
        then show "\<not> numeric_seg_at (c # cs) j d'"
          using no0 least by (cases j) (auto simp: numeric_seg_at_Suc)
      qed
      ultimately show "\<exists>i. numeric_seg_at (c # cs) i d \<and> (\<forall>j<i. \<forall>d'. \<not> numeric_seg_at (c # cs) j d')"
        by blast
    next
      assume "\<exists>i. numeric_seg_at (c # cs) i d \<and> (\<forall>j<i. \<forall>d'. \<not> numeric_seg_at (c # cs) j d')"
      then obtain i where i: "numeric_seg_at (c # cs) i d"
        and least: "\<forall>j<i. \<forall>d'. \<not> numeric_seg_at (c # cs) j d'" by blast
      from i no0 obtain k where k: "i = Suc k" by (cases i) auto
      have "numeric_seg_at cs k d" using i k by (simp add: numeric_seg_at_Suc)
      moreover have "\<forall>j<k. \<forall>d'. \<not> numeric_seg_at cs j d'"
      proof (intro allI impI)
        fix j d' assume "j < k"
        then have "Suc j < i" using k by simp
        with least have "\<not> numeric_seg_at (c # cs) (Suc j) d'" by blast
        then show "\<not> numeric_seg_at cs j d'" by (simp add: numeric_seg_at_Suc)
      qed
      ultimately have "re_search_id cs = Some d" using Cons.IH by blast
      with res show "re_search_id (c # cs) = Some d" by simp
    qed
  qed
qed

lemma numeric_seg_nonempty: "numeric_seg_at u i d \<Longrightarrow> d \<noteq> []"
  by (simp add: numeric_seg_at_def)

text \<open>
  Claim C1, as the code has it. The id of a record is the digit string of the first
  (leftmost) place of the URL where a slash is followed by a non-empty run of digits
  and then by the end of the string, by a newline that ends the string, or by one of
  \<open>/\<close>, \<open>?\<close>, \<open>#\<close>, when there is such a place; otherwise it is the decimal string of
  the current Unix time. In all cases it is non-empty.
\<close>

theorem record_id_first_numeric_segment:
  "(numeric_seg_at u i d \<and> (\<forall>j<i. \<forall>d'. \<not> numeric_seg_at u j d') \<longrightarrow> record_id u now = d) \<and>
   ((\<forall>i d. \<not> numeric_seg_at u i d) \<longrightarrow> record_id u now = str_int now) \<and>
   record_id u now \<noteq> []"
proof (intro conjI impI)
  assume a: "numeric_seg_at u i d \<and> (\<forall>j<i. \<forall>d'. \<not> numeric_seg_at u j d')"
  then have "re_search_id u = Some d" using re_search_id_Some by blast
  moreover have "d \<noteq> []" using a numeric_seg_nonempty by blast
  ultimately show "record_id u now = d" by (simp add: record_id_def extract_id_from_url_def)
next
  assume "\<forall>i d. \<not> numeric_seg_at u i d"
  then have "re_search_id u = None" by (simp add: re_search_id_None)
  then show "record_id u now = str_int now" by (simp add: record_id_def extract_id_from_url_def)
next
  show "record_id u now \<noteq> []" by (simp add: record_id_def str_int_nonempty)
qed

theorem record_id_first_numeric_segment_witness:
  "numeric_seg_at ''/a/12/345'' 2 ''12'' \<and>
   record_id ''/a/12/345'' 1700000000 = ''12'' \<and>
   numeric_seg_at (''/a/12'' @ [CHR 0x0A]) 2 ''12'' \<and>
   record_id (''/a/12'' @ [CHR 0x0A]) 1700000000 = ''12'' \<and>
   (\<forall>i d. \<not> numeric_seg_at ''/a/b'' i d) \<and>
   record_id ''/a/b'' 1700000000 = str_int 1700000000 \<and>
   record_id ''/a/b'' 1700000000 \<noteq> []"
proof -
  have seg: "numeric_seg_at ''/a/12/345'' 2 ''12''"
    by (simp add: numeric_seg_at_def is_digit_def seg_end_def)
  have least: "\<forall>j<2. \<forall>d'. \<not> numeric_seg_at ''/a/12/345'' j d'"
  proof (intro allI impI)
    fix j :: nat and d' assume "j < 2"
    then consider "j = 0" | "j = 1" by linarith
    then show "\<not> numeric_seg_at ''/a/12/345'' j d'"
    proof cases
      case 1
      then show ?thesis by (simp add: numeric_seg_at_0 is_digit_def)
    next
      case 2
      then show ?thesis by (simp add: numeric_seg_at_def)
    qed
  qed
  have none: "\<forall>i d. \<not> numeric_seg_at ''/a/b'' i d"
    using re_search_id_None [of "''/a/b''"] by (simp add: is_digit_def)
  from record_id_first_numeric_segment [of "''/a/12/345''" 2 "''12''" 1700000000] seg least
  have a: "record_id ''/a/12/345'' 1700000000 = ''12''" by blast
  have segn: "numeric_seg_at (''/a/12'' @ [CHR 0x0A]) 2 ''12''"
    by (simp add: numeric_seg_at_def is_digit_def seg_end_def)
  have leastn: "\<forall>j<2. \<forall>d'. \<not> numeric_seg_at (''/a/12'' @ [CHR 0x0A]) j d'"
  proof (intro allI impI)
    fix j :: nat and d' assume "j < 2"
    then consider "j = 0" | "j = 1" by linarith
    then show "\<not> numeric_seg_at (''/a/12'' @ [CHR 0x0A]) j d'"
    proof cases
      case 1
      then show ?thesis by (simp add: numeric_seg_at_0 is_digit_def)
    next
      case 2
      then show ?thesis by (simp add: numeric_seg_at_def)
    qed
  qed
  from record_id_first_numeric_segment [of "''/a/12'' @ [CHR 0x0A]" 2 "''12''" 1700000000]
    segn leastn
  have an: "record_id (''/a/12'' @ [CHR 0x0A]) 1700000000 = ''12''" by blast
  from record_id_first_numeric_segment [of "''/a/b''" 0 "[]" 1700000000] none
  have b: "record_id ''/a/b'' 1700000000 = str_int 1700000000"
    and c: "record_id ''/a/b'' 1700000000 \<noteq> []" by blast+
  from seg none a segn an b c show ?thesis by blast
qed

text \<open>
  The claim as stated asks for the last numeric segment. In a URL with two numeric
  segments the code takes the first.
\<close>

theorem record_id_last_segment_counterexample:
  "record_id ''https://x/news/123/456'' 1700000000 = ''123'' \<and>
   spec_last_numeric_segment ''https://x/news/123/456'' = Some ''456''"
  by (simp add: record_id_def extract_id_from_url_def spec_last_numeric_segment_def
      is_digit_def seg_end_def)

section \<open>The classifier\<close>



lemma set_set_iter: "set (set_iter E xs) = set xs"
  by (simp add: set_iter_def)




section \<open>The candidates\<close>

lemma which_section_nonempty: "which_section u secs = Some s \<Longrightarrow> s \<noteq> []"
  by (induction secs) (auto simp: SECTION_PREFIX_def split: option.splits if_splits)

lemma which_section_mem: "which_section u secs = Some s \<Longrightarrow> s \<in> set secs"
  by (induction secs) (auto split: option.splits if_splits)

lemma filter_loop_step:
  "filter_loop section_set since_date (item # rest) (filtered, seen_locs) =
     (if keeps section_set since_date seen_locs item
      then filter_loop section_set since_date rest
             (filtered @ [item], finsert (loc item) seen_locs)
      else filter_loop section_set since_date rest (filtered, seen_locs))"
  by (auto simp: keeps_def which_section_nonempty split: option.splits)

lemma filter_loop_distinct:
  "distinct (map loc filtered) \<Longrightarrow> fset seen_locs = loc ` set filtered \<Longrightarrow>
   distinct (map loc (fst (filter_loop section_set since_date items (filtered, seen_locs))))"
proof (induction items arbitrary: filtered seen_locs)
  case Nil
  then show ?case by simp
next
  case (Cons item rest)
  show ?case
  proof (cases "keeps section_set since_date seen_locs item")
    case True
    then have new: "loc item \<notin> loc ` set filtered"
      using Cons.prems(2) by (auto simp: keeps_def)
    have d: "distinct (map loc (filtered @ [item]))"
      using Cons.prems(1) new by auto
    have s: "fset (finsert (loc item) seen_locs) = loc ` set (filtered @ [item])"
      using Cons.prems(2) by auto
    show ?thesis
      using Cons.IH [OF d s] True by (simp only: filter_loop_step if_True)
  next
    case False
    show ?thesis
      using Cons.IH [OF Cons.prems] False by (simp only: filter_loop_step if_False)
  qed
qed

lemma filter_loop_recent:
  "\<forall>item\<in>set filtered. \<forall>lm. lastmod item = Some lm \<longrightarrow> \<not> wall lm < since_date \<Longrightarrow>
   \<forall>item\<in>set (fst (filter_loop section_set since_date items (filtered, seen_locs))).
      \<forall>lm. lastmod item = Some lm \<longrightarrow> \<not> wall lm < since_date"
proof (induction items arbitrary: filtered seen_locs)
  case Nil
  then show ?case by simp
next
  case (Cons item rest)
  show ?case
  proof (cases "keeps section_set since_date seen_locs item")
    case True
    then have "\<forall>lm. lastmod item = Some lm \<longrightarrow> \<not> wall lm < since_date"
      by (auto simp: keeps_def)
    with Cons.prems
    have "\<forall>i\<in>set (filtered @ [item]). \<forall>lm. lastmod i = Some lm \<longrightarrow> \<not> wall lm < since_date"
      by auto
    from Cons.IH [OF this] True show ?thesis by (simp only: filter_loop_step if_True)
  next
    case False
    from Cons.IH [OF Cons.prems] False show ?thesis by (simp only: filter_loop_step if_False)
  qed
qed

lemma filter_loop_mono:
  "set filtered \<subseteq> set (fst (filter_loop section_set since_date items (filtered, seen_locs)))"
proof (induction items arbitrary: filtered seen_locs)
  case Nil
  then show ?case by simp
next
  case (Cons item rest)
  show ?case
  proof (cases "keeps section_set since_date seen_locs item")
    case True
    have "set filtered \<subseteq> set (filtered @ [item])" by auto
    also have "\<dots> \<subseteq> set (fst (filter_loop section_set since_date rest
                                (filtered @ [item], finsert (loc item) seen_locs)))"
      by (rule Cons.IH)
    finally show ?thesis using True by (simp only: filter_loop_step if_True)
  next
    case False
    with Cons.IH show ?thesis by (simp only: filter_loop_step if_False)
  qed
qed

lemma filter_loop_absent_kept:
  "fset seen_locs \<subseteq> loc ` set filtered \<Longrightarrow> item \<in> set items \<Longrightarrow> lastmod item = None \<Longrightarrow>
   which_section (loc item) section_set \<noteq> None \<Longrightarrow>
   loc item \<in> loc ` set (fst (filter_loop section_set since_date items (filtered, seen_locs)))"
proof (induction items arbitrary: filtered seen_locs)
  case Nil
  then show ?case by simp
next
  case (Cons x rest)
  show ?case
  proof (cases "keeps section_set since_date seen_locs x")
    case True
    have s: "fset (finsert (loc x) seen_locs) \<subseteq> loc ` set (filtered @ [x])"
      using Cons.prems(1) by auto
    show ?thesis
    proof (cases "item = x")
      case same: True
      have "x \<in> set (filtered @ [x])" by simp
      then have "x \<in> set (fst (filter_loop section_set since_date rest
                                (filtered @ [x], finsert (loc x) seen_locs)))"
        using filter_loop_mono by blast
      then show ?thesis using True same by (simp only: filter_loop_step if_True) blast
    next
      case False
      then have "item \<in> set rest" using Cons.prems(2) by simp
      from Cons.IH [OF s this Cons.prems(3,4)] True
      show ?thesis by (simp only: filter_loop_step if_True)
    qed
  next
    case False
    show ?thesis
    proof (cases "item = x")
      case same: True
      then have "loc item |\<in>| seen_locs"
        using False Cons.prems(3,4) by (auto simp: keeps_def)
      then have "loc item \<in> loc ` set filtered" using Cons.prems(1) by auto
      then have "loc item \<in> loc ` set (fst (filter_loop section_set since_date rest
                                (filtered, seen_locs)))"
        using filter_loop_mono by blast
      then show ?thesis using False by (simp only: filter_loop_step if_False)
    next
      case diff: False
      then have "item \<in> set rest" using Cons.prems(2) by simp
      from Cons.IH [OF Cons.prems(1) this Cons.prems(3,4)] False
      show ?thesis by (simp only: filter_loop_step if_False)
    qed
  qed
qed

text \<open>
  Claim C8. Whatever the resolver returns, duplicates included, the locations of the
  filtered candidates are pairwise distinct.
\<close>

theorem filtered_locations_distinct:
  "distinct (map loc (fst (filter_loop section_set since_date all_urls ([], {||}))))"
  by (rule filter_loop_distinct) simp_all

text \<open>
  Claim C7, as the code has it. An entry whose last-modified time is known and whose
  wall-clock reading, its offset from UTC dropped, lies before the wall-clock reading
  of now minus \<open>since_days\<close> days is not among the candidates. An entry without a
  last-modified time that falls in a requested section is not dropped for its age: its
  location is among the candidates.
\<close>

theorem recency_filter:
  "since_date_of now since_days = Inr since_date \<Longrightarrow>
   filtered = fst (filter_loop section_set since_date all_urls ([], {||})) \<Longrightarrow>
   since_date = now - since_days * 86400000000 \<and>
   (\<forall>item lm. lastmod item = Some lm \<and> wall lm < now - since_days * 86400000000 \<longrightarrow>
      item \<notin> set filtered) \<and>
   (\<forall>item\<in>set all_urls. lastmod item = None \<and> which_section (loc item) section_set \<noteq> None \<longrightarrow>
      loc item \<in> loc ` set filtered)"
proof (intro conjI)
  assume sd: "since_date_of now since_days = Inr since_date"
    and f: "filtered = fst (filter_loop section_set since_date all_urls ([], {||}))"
  show eq: "since_date = now - since_days * 86400000000"
    using sd by (auto simp: since_date_of_def Let_def split: if_splits)
  have "\<forall>item\<in>set filtered. \<forall>lm. lastmod item = Some lm \<longrightarrow> \<not> wall lm < since_date"
    unfolding f by (rule filter_loop_recent) simp
  then show "\<forall>item lm. lastmod item = Some lm \<and> wall lm < now - since_days * 86400000000 \<longrightarrow>
      item \<notin> set filtered"
    unfolding eq by blast
  show "\<forall>item\<in>set all_urls. lastmod item = None \<and> which_section (loc item) section_set \<noteq> None \<longrightarrow>
      loc item \<in> loc ` set filtered"
    unfolding f using filter_loop_absent_kept [of "{||}" "[]"] by auto
qed

text \<open>
  The claim as stated speaks of a time that is older than the cutoff. On a machine
  whose local time is UTC, at 2024-03-01T12:00 and with 30 days, the cutoff is
  2024-01-31T12:00. An entry last modified at 2024-01-31T13:00+07:00, which is 06:00
  UTC, is older than the cutoff and is kept: its wall-clock reading is 13:00.
\<close>

theorem recency_filter_offset_counterexample:
  "since_date_of 63844891200000000 30 = Inr 63842299200000000 \<and>
   utc_reading \<lparr>wall = 63842302800000000, utcoffset = Some 25200000000\<rparr>
     < 63842299200000000 \<and>
   \<lparr>loc = url_p,
    lastmod = Some \<lparr>wall = 63842302800000000, utcoffset = Some 25200000000\<rparr>\<rparr>
     \<in> set (fst (filter_loop [''politic''] 63842299200000000
          [\<lparr>loc = url_p,
            lastmod = Some \<lparr>wall = 63842302800000000, utcoffset = Some 25200000000\<rparr>\<rparr>]
          ([], {||})))"
  by (simp add: since_date_of_def utc_reading_def url_p_def SECTION_PREFIX_def SUBFILTERS_def)

section \<open>The retrying fetch\<close>

text \<open>
  Claim C9. The first attempt has a timeout of 2 seconds. When it succeeds its body is
  returned and nothing else is done. When it fails, the program sleeps 0.2 seconds and
  makes exactly one more attempt, with a timeout of 3 seconds: its body is returned, or
  its failure is raised to the caller.
\<close>

theorem fetch_with_fast_retry_policy:
  "k = length (filter is_Get tr) \<Longrightarrow>
   (\<forall>body. net k u 2 = Inr body \<longrightarrow>
      fetch_with_fast_retry net u tr = (Inr body, tr @ [Get u 2])) \<and>
   (\<forall>f body. net k u 2 = Inl f \<and> net (Suc k) u 3 = Inr body \<longrightarrow>
      fetch_with_fast_retry net u tr = (Inr body, tr @ [Get u 2, Sleep 200, Get u 3])) \<and>
   (\<forall>f f'. net k u 2 = Inl f \<and> net (Suc k) u 3 = Inl f' \<longrightarrow>
      fetch_with_fast_retry net u tr =
        (Inl (RequestException f'), tr @ [Get u 2, Sleep 200, Get u 3]))"
  by (simp add: fetch_with_fast_retry_def fetch_text_def)


section \<open>The processing loop\<close>

lemma fetch_with_fast_retry_error:
  "fetch_with_fast_retry net u tr = (Inl e, tr') \<Longrightarrow> \<exists>f. e = RequestException f"
  by (auto simp: fetch_with_fast_retry_def fetch_text_def split: sum.splits)

lemma keys_foldl_update:
  "fst ` set (foldl (\<lambda>d s. AList.update s v d) d0 xs) = fst ` set d0 \<union> set xs"
  by (induction xs arbitrary: d0) (auto simp: AList.dom_update)

lemma keys_init_results: "fst ` set (init_results sections) = set sections"
  by (simp add: init_results_def keys_foldl_update)

lemma map_of_keys: "map_of al k \<noteq> None \<longleftrightarrow> k \<in> fst ` set al"
  by (simp add: map_of_eq_None_iff)

lemma filter_loop_classified:
  "\<forall>item\<in>set filtered. which_section (loc item) section_set \<noteq> None \<Longrightarrow>
   \<forall>item\<in>set (fst (filter_loop section_set since_date items (filtered, seen_locs))).
      which_section (loc item) section_set \<noteq> None"
proof (induction items arbitrary: filtered seen_locs)
  case Nil
  then show ?case by simp
next
  case (Cons item rest)
  have ext: "which_section (loc item) section_set \<noteq> None \<Longrightarrow>
        \<forall>i\<in>set (filtered @ [item]). which_section (loc i) section_set \<noteq> None"
    using Cons.prems by auto
  show ?case
    using Cons.IH [OF Cons.prems] Cons.IH [OF ext]
    by (auto split: option.splits)
qed

lemma results_article_fail: "results (snd (article_fail E l e st)) = results st"
  by (simp add: article_fail_def py_print_def)

lemma failures_article_fail: "failures (snd (article_fail E l e st)) = failures st @ [(l, e)]"
  by (simp add: article_fail_def py_print_def)

lemma process_item_keys:
  "fst ` set (results (snd (process_item E section_set item st))) = fst ` set (results st)"
proof -
  have upd: "\<And>k items r. map_of (results st) k = Some items \<Longrightarrow>
      fst ` set (AList.update k (items @ [r]) (results st)) = fst ` set (results st)"
  proof -
    fix k items r assume "map_of (results st) k = Some items"
    then have "k \<in> fst ` set (results st)" using map_of_keys [of "results st" k] by simp
    then show "fst ` set (AList.update k (items @ [r]) (results st)) = fst ` set (results st)"
      by (auto simp: AList.dom_update)
  qed
  show ?thesis
    by (auto simp: process_item_def Let_def upd results_article_fail py_print_def
        split: prod.splits sum.splits option.splits)
qed

lemma process_item_no_KeyError:
  assumes "which_section (loc item) section_set = Some sec"
    and "sec \<in> fst ` set (results st)"
    and "KeyError \<notin> snd ` set (failures st)"
  shows "KeyError \<notin> snd ` set (failures (snd (process_item E section_set item st)))"
proof -
  obtain r tr where ft: "fetch_with_fast_retry (GET E) (loc item) (events st) = (r, tr)"
    by (cases "fetch_with_fast_retry (GET E) (loc item) (events st)")
  show ?thesis
  proof (cases r)
    case (Inl e)
    with ft obtain f where "e = RequestException f"
      using fetch_with_fast_retry_error by blast
    with Inl ft assms(3) show ?thesis
      by (auto simp: process_item_def failures_article_fail)
  next
    case (Inr html)
    from assms(2) obtain items where "map_of (results st) sec = Some items"
      using map_of_keys [of "results st" sec] by auto
    with Inr ft assms(1,3) show ?thesis
      by (auto simp: process_item_def Let_def failures_article_fail py_print_def)
  qed
qed

lemma process_queue_keys:
  "fst ` set (results (snd (process_queue E section_set items st))) = fst ` set (results st)"
proof (induction items arbitrary: st)
  case Nil
  then show ?case by simp
next
  case (Cons item rest)
  obtain r st1 where pi: "process_item E section_set item st = (r, st1)"
    by (cases "process_item E section_set item st")
  have k: "fst ` set (results st1) = fst ` set (results st)"
    using process_item_keys [of E section_set item st] pi by simp
  show ?case
  proof (cases r)
    case None
    with pi k Cons.IH [of st1] show ?thesis by simp
  next
    case (Some e)
    with pi k show ?thesis by simp
  qed
qed

lemma process_queue_no_KeyError:
  "\<forall>item\<in>set items. \<exists>sec. which_section (loc item) section_set = Some sec \<and>
        sec \<in> fst ` set (results st) \<Longrightarrow>
   KeyError \<notin> snd ` set (failures st) \<Longrightarrow>
   KeyError \<notin> snd ` set (failures (snd (process_queue E section_set items st)))"
proof (induction items arbitrary: st)
  case Nil
  then show ?case by simp
next
  case (Cons item rest)
  from Cons.prems(1) obtain sec where sec: "which_section (loc item) section_set = Some sec"
    "sec \<in> fst ` set (results st)" by auto
  obtain r st1 where pi: "process_item E section_set item st = (r, st1)"
    by (cases "process_item E section_set item st")
  have k: "fst ` set (results st1) = fst ` set (results st)"
    using process_item_keys [of E section_set item st] pi by simp
  have 1: "\<forall>i\<in>set rest. \<exists>sec. which_section (loc i) section_set = Some sec \<and>
        sec \<in> fst ` set (results st1)"
    using Cons.prems(1) k by simp
  have 2: "KeyError \<notin> snd ` set (failures st1)"
    using process_item_no_KeyError [OF sec Cons.prems(2), of E] pi by simp
  show ?case
  proof (cases r)
    case None
    with pi Cons.IH [OF 1 2] show ?thesis by simp
  next
    case (Some e)
    with pi 2 show ?thesis by simp
  qed
qed

text \<open>
  Claim C10. For every candidate the classifier, called again in the processing loop
  with the same sections, returns a section, and this section is a key of the results:
  of the initial results, whose keys the loop never changes. So no round of the loop
  fails with a missing key.
\<close>

theorem section_is_key_of_results:
  assumes "section_set = set_iter E sections"
    and "filtered = fst (filter_loop section_set since_date all_urls ([], {||}))"
    and "st0 = \<lparr>results = init_results sections, ok = 0, skip = 0, fail = 0,
                failures = [], events = tr\<rparr>"
  shows "(\<forall>item\<in>set filtered. \<exists>sec items.
            which_section (loc item) section_set = Some sec \<and>
            map_of (init_results sections) sec = Some items) \<and>
         fst ` set (results (snd (process_queue E section_set filtered st0))) = set sections \<and>
         KeyError \<notin> snd ` set (failures (snd (process_queue E section_set filtered st0)))"
proof -
  have cl: "\<forall>item\<in>set filtered. which_section (loc item) section_set \<noteq> None"
    unfolding assms(2) by (rule filter_loop_classified) simp
  have key: "\<forall>item\<in>set filtered. \<exists>sec. which_section (loc item) section_set = Some sec \<and>
        sec \<in> set sections"
  proof
    fix item assume "item \<in> set filtered"
    with cl obtain sec where s: "which_section (loc item) section_set = Some sec" by auto
    then have "sec \<in> set section_set" by (rule which_section_mem)
    then have "sec \<in> set sections" unfolding assms(1) set_set_iter .
    with s show "\<exists>sec. which_section (loc item) section_set = Some sec \<and> sec \<in> set sections"
      by blast
  qed
  have a: "\<forall>item\<in>set filtered. \<exists>sec items.
            which_section (loc item) section_set = Some sec \<and>
            map_of (init_results sections) sec = Some items"
  proof
    fix item assume "item \<in> set filtered"
    with key obtain sec where s: "which_section (loc item) section_set = Some sec"
      "sec \<in> set sections" by blast
    then have "sec \<in> fst ` set (init_results sections)"
      by (simp add: keys_init_results)
    then have "map_of (init_results sections) sec \<noteq> None"
      using map_of_keys [of "init_results sections" sec] by blast
    with s show "\<exists>sec items. which_section (loc item) section_set = Some sec \<and>
            map_of (init_results sections) sec = Some items" by auto
  qed
  have b: "fst ` set (results (snd (process_queue E section_set filtered st0))) = set sections"
    by (simp add: process_queue_keys assms(3) keys_init_results)
  have c: "KeyError \<notin> snd ` set (failures (snd (process_queue E section_set filtered st0)))"
  proof (rule process_queue_no_KeyError)
    show "\<forall>item\<in>set filtered. \<exists>sec. which_section (loc item) section_set = Some sec \<and>
        sec \<in> fst ` set (results st0)"
      using key by (simp add: assms(3) keys_init_results)
    show "KeyError \<notin> snd ` set (failures st0)" by (simp add: assms(3))
  qed
  from a b c show ?thesis by blast
qed

section \<open>The run on the example site\<close>

lemmas demo_urls = url_a_def url_b_def url_p_def url_q_def url_r_def

lemma demo_GET:
  "GET demo_env k url_a t = Inr xml_a"
  "GET demo_env k url_b t = Inr xml_b"
  "GET demo_env k url_p t = Inr html_p"
  "GET demo_env k url_q t = Inr html_q"
  "GET demo_env k url_r t = Inl (HttpStatus 404)"
  by (simp_all add: demo_env_def demo_urls)

lemma demo_fromstring:
  "fromstring demo_env xml_a = Some doc_a"
  "fromstring demo_env xml_b = Some doc_b"
  by (simp_all add: demo_env_def xml_a_def xml_b_def)

lemma demo_soup:
  "BeautifulSoup demo_env html_p = soup_p"
  "BeautifulSoup demo_env html_q = soup_q"
  by (simp_all add: demo_env_def html_p_def html_q_def)

lemma demo_print: "py_print demo_env m tr = (None, tr @ [Print m])"
  by (simp add: py_print_def demo_env_def)



lemma url_neq: "url_a \<noteq> url_b" "url_b \<noteq> url_a" "url_a \<noteq> []" "url_b \<noteq> []"
  "url_p \<noteq> []" "url_q \<noteq> []" "url_r \<noteq> []" "url_p \<noteq> url_q" "url_q \<noteq> url_p"
  by (simp_all add: demo_urls)

lemma demo_load_one:
  "GET E = GET demo_env \<Longrightarrow> fromstring E = fromstring demo_env \<Longrightarrow>
   load_one E 500 url_a \<lparr>urls = [], seen = {||}, trace = tr\<rparr> =
     (None, \<lparr>urls = [\<lparr>loc = url_p, lastmod = None\<rparr>, \<lparr>loc = url_q, lastmod = None\<rparr>,
                    \<lparr>loc = url_r, lastmod = None\<rparr>, \<lparr>loc = url_p, lastmod = None\<rparr>],
             seen = {|url_a, url_b|},
             trace = tr @ [Get url_a 10, Get url_b 10, Get url_a 10]\<rparr>)"
  by (simp add: load_one.simps fetch_text_def demo_GET demo_fromstring
      doc_a_def doc_b_def url_neq fcard_finsert_if fcard_fempty Let_def)

lemma demo_resolve:
  "GET E = GET demo_env \<Longrightarrow> fromstring E = fromstring demo_env \<Longrightarrow>
   fetch_sitemap_urls E url_a 500 tr =
     (Inr [\<lparr>loc = url_p, lastmod = None\<rparr>, \<lparr>loc = url_q, lastmod = None\<rparr>,
           \<lparr>loc = url_r, lastmod = None\<rparr>, \<lparr>loc = url_p, lastmod = None\<rparr>],
      tr @ [Get url_a 10, Get url_b 10, Get url_a 10])"
  by (simp add: fetch_sitemap_urls_def demo_load_one)

lemma demo_extract_q:
  "extract_article demo_env html_q url_q =
     \<lparr>meta_url = url_q, meta_headline = None, meta_summary = [], meta_content = [],
      meta_published_iso = []\<rparr>"
  by (simp add: extract_article_def demo_soup soup_q_def normalize_date_def candidates_def)

lemma demo_extract_p:
  "extract_article demo_env html_p url_p =
     \<lparr>meta_url = url_p, meta_headline = Some ''H'', meta_summary = [],
      meta_content = ''Body text here.'' @ [CHR 0x0A] @ ''More text.'',
      meta_published_iso = ''2024-01-01T00:00:00+00:00''\<rparr>"
  by (simp add: extract_article_def demo_soup soup_p_def normalize_date_def candidates_def
      strip_def is_space_def replace_char_def demo_env_def)



lemma demo_sections:
  "sections_of (Some (Str ''politic,investment'')) = Inr [''politic'', ''investment'']"
  by (simp add: sections_of_def strip_def is_space_def)

lemma demo_set_iter:
  "hash_rank E = hash_rank demo_env \<Longrightarrow>
   set_iter E [''politic'', ''investment''] = [''politic'', ''investment'']"
  by (simp add: set_iter_def demo_env_def)

lemma demo_filter:
  "filter_loop [''politic'', ''investment''] since
     [\<lparr>loc = url_p, lastmod = None\<rparr>, \<lparr>loc = url_q, lastmod = None\<rparr>,
      \<lparr>loc = url_r, lastmod = None\<rparr>, \<lparr>loc = url_p, lastmod = None\<rparr>] ([], {||}) =
   ([\<lparr>loc = url_p, lastmod = None\<rparr>, \<lparr>loc = url_q, lastmod = None\<rparr>,
     \<lparr>loc = url_r, lastmod = None\<rparr>],
    {|url_r, url_q, url_p|})"
  by (simp add: demo_urls SECTION_PREFIX_def SUBFILTERS_def)

lemma demo_ids: "record_id url_p t = ''12345''" "record_id url_q t = ''7''"
  by (simp_all add: record_id_def extract_id_from_url_def demo_urls is_digit_def seg_end_def)

lemma demo_ws:
  "which_section url_p [''politic'', ''investment''] = Some ''politic''"
  "which_section url_q [''politic'', ''investment''] = Some ''investment''"
  "which_section url_r [''politic'', ''investment''] = Some ''politic''"
  by (simp_all add: demo_urls SECTION_PREFIX_def SUBFILTERS_def)

lemma demo_process:
  "process_queue demo_env [''politic'', ''investment'']
     [\<lparr>loc = url_p, lastmod = None\<rparr>, \<lparr>loc = url_q, lastmod = None\<rparr>,
      \<lparr>loc = url_r, lastmod = None\<rparr>]
     \<lparr>results = init_results [''politic'', ''investment''], ok = 0, skip = 0, fail = 0,
      failures = [], events = tr\<rparr> =
   (None,
    \<lparr>results = [(''politic'', [rec_p]), (''investment'', [rec_q])], ok = 2, skip = 0,
     fail = 1, failures = [(url_r, RequestException (HttpStatus 404))],
     events = tr @ [Get url_p 2, Print (MsgSaved url_p), Sleep 50,
                    Get url_q 2, Print (MsgSaved url_q), Sleep 50,
                    Get url_r 2, Sleep 200, Get url_r 3,
                    Print (MsgFail url_r (RequestException (HttpStatus 404)))]\<rparr>)"
  by (simp add: process_item_def article_fail_def fetch_with_fast_retry_def fetch_text_def
      demo_GET demo_print demo_extract_p demo_extract_q demo_ids demo_ws init_results_def
      rec_p_def rec_q_def Let_def del: which_section.simps)


lemma demo_save:
  "save_outputs (Str ''data/thairath_dataset.csv'')
     [(''politic'', [rec_p]), (''investment'', [rec_q])] =
   Inr [(''data/thairath_dataset_politic.csv'', [rec_p]),
        (''data/thairath_dataset_investment.csv'', [rec_q])]"
  by (simp add: str_replace_def)

lemma demo_since: "since_date_of (datetime_now demo_env) 1825 = Inr 63687211200000000"
  by (simp add: since_date_of_def demo_env_def)

lemma demo_args:
  "parse_args demo_argv Map.empty =
     [''sitemap'' \<mapsto> Str url_a, ''sections'' \<mapsto> Str ''politic,investment'']"
  by (simp add: demo_urls demo_argv_def)

lemma demo_run:
  "main demo_env demo_argv =
     (Inr (Done demo_result), events (final demo_result) @ [Print (MsgDone 2 0 1)])"
  unfolding main_def demo_args
  by (simp add: truthy_def url_neq int_arg_def demo_sections demo_since crawl_def
      demo_set_iter url_of_def demo_resolve demo_filter demo_process demo_save Let_def
      demo_result_def demo_print
      del: which_section.simps filter_loop.simps process_queue.simps save_outputs.simps)


section \<open>The claims on the example site\<close>

text \<open>
  The theorems on the candidates, the retrying fetch and the processing loop, applied
  to the example site.
\<close>

theorem filtered_locations_distinct_witness:
  "distinct (map loc (fst (filter_loop [''politic'', ''investment''] 0
      [\<lparr>loc = url_p, lastmod = None\<rparr>, \<lparr>loc = url_q, lastmod = None\<rparr>,
       \<lparr>loc = url_r, lastmod = None\<rparr>, \<lparr>loc = url_p, lastmod = None\<rparr>] ([], {||}))))"
  by (rule filtered_locations_distinct)

theorem recency_filter_witness:
  "since_date_of 63844891200000000 30 = Inr 63842299200000000 \<and>
   \<lparr>loc = url_p, lastmod = Some \<lparr>wall = 63841435200000000, utcoffset = None\<rparr>\<rparr>
     \<notin> set (fst (filter_loop [''politic'', ''investment''] 63842299200000000
          [\<lparr>loc = url_p, lastmod = Some \<lparr>wall = 63841435200000000, utcoffset = None\<rparr>\<rparr>,
           \<lparr>loc = url_q, lastmod = None\<rparr>] ([], {||}))) \<and>
   url_q \<in> loc ` set (fst (filter_loop [''politic'', ''investment''] 63842299200000000
          [\<lparr>loc = url_p, lastmod = Some \<lparr>wall = 63841435200000000, utcoffset = None\<rparr>\<rparr>,
           \<lparr>loc = url_q, lastmod = None\<rparr>] ([], {||})))"
proof -
  let ?old = "\<lparr>loc = url_p, lastmod = Some \<lparr>wall = 63841435200000000, utcoffset = None\<rparr>\<rparr>"
  let ?new = "\<lparr>loc = url_q, lastmod = None\<rparr>"
  let ?f = "fst (filter_loop [''politic'', ''investment''] 63842299200000000 [?old, ?new] ([], {||}))"
  have sd: "since_date_of 63844891200000000 30 = Inr 63842299200000000"
    by (simp add: since_date_of_def)
  have ws: "which_section (loc ?new) [''politic'', ''investment''] \<noteq> None"
    by (simp add: demo_ws del: which_section.simps)
  have mem: "?new \<in> set [?old, ?new]" by simp
  have lmo: "lastmod ?old = Some \<lparr>wall = 63841435200000000, utcoffset = None\<rparr>"
    and lmn: "lastmod ?new = None" and lq: "loc ?new = url_q" by simp_all
  have old: "wall \<lparr>wall = 63841435200000000, utcoffset = None\<rparr>
       < 63844891200000000 - 30 * 86400000000" by simp
  note r = recency_filter [OF sd refl, of "[''politic'', ''investment'']" "[?old, ?new]"]
  from r lmo old have a: "?old \<notin> set ?f" by blast
  from r mem lmn ws have "loc ?new \<in> loc ` set ?f" by blast
  then have b: "url_q \<in> loc ` set ?f" unfolding lq .
  from sd a b show ?thesis by blast
qed

theorem fetch_with_fast_retry_policy_witness:
  "fetch_with_fast_retry (GET demo_env) url_p [] = (Inr html_p, [Get url_p 2]) \<and>
   fetch_with_fast_retry flaky_net url_p [] =
     (Inr ''ok'', [Get url_p 2, Sleep 200, Get url_p 3]) \<and>
   fetch_with_fast_retry (GET demo_env) url_r [] =
     (Inl (RequestException (HttpStatus 404)), [Get url_r 2, Sleep 200, Get url_r 3])"
proof -
  have k: "0 = length (filter is_Get [])" by simp
  note a = fetch_with_fast_retry_policy [OF k, of "GET demo_env" url_p]
  note b = fetch_with_fast_retry_policy [OF k, of flaky_net url_p]
  note c = fetch_with_fast_retry_policy [OF k, of "GET demo_env" url_r]
  have 1: "fetch_with_fast_retry (GET demo_env) url_p [] = (Inr html_p, [Get url_p 2])"
    using a by (simp add: demo_GET)
  have 2: "fetch_with_fast_retry flaky_net url_p [] =
     (Inr ''ok'', [Get url_p 2, Sleep 200, Get url_p 3])"
    using b by (simp add: flaky_net_def)
  have 3: "fetch_with_fast_retry (GET demo_env) url_r [] =
     (Inl (RequestException (HttpStatus 404)), [Get url_r 2, Sleep 200, Get url_r 3])"
    using c by (simp add: demo_GET)
  from 1 2 3 show ?thesis by blast
qed

theorem section_is_key_of_results_witness:
  "fst ` set (results (snd (process_queue demo_env
      (set_iter demo_env [''politic'', ''investment''])
      (fst (filter_loop (set_iter demo_env [''politic'', ''investment'']) 0
         [\<lparr>loc = url_p, lastmod = None\<rparr>, \<lparr>loc = url_r, lastmod = None\<rparr>] ([], {||})))
      \<lparr>results = init_results [''politic'', ''investment''], ok = 0, skip = 0, fail = 0,
       failures = [], events = []\<rparr>))) = set [''politic'', ''investment''] \<and>
   KeyError \<notin> snd ` set (failures (snd (process_queue demo_env
      (set_iter demo_env [''politic'', ''investment''])
      (fst (filter_loop (set_iter demo_env [''politic'', ''investment'']) 0
         [\<lparr>loc = url_p, lastmod = None\<rparr>, \<lparr>loc = url_r, lastmod = None\<rparr>] ([], {||})))
      \<lparr>results = init_results [''politic'', ''investment''], ok = 0, skip = 0, fail = 0,
       failures = [], events = []\<rparr>)))"
  using section_is_key_of_results [OF refl refl refl, of demo_env "[''politic'', ''investment'']" 0
      "[\<lparr>loc = url_p, lastmod = None\<rparr>, \<lparr>loc = url_r, lastmod = None\<rparr>]" "[]"]
  by blast

text \<open>
  Claim C2 asks that a sitemap cycle is resolved without fetching a sitemap document
  twice and with every entry contributed once. The resolver records in \<open>seen\<close> the
  locations it finds in a document, not the root it starts from. On the example site,
  whose two documents name each other, the second document sends it back to the root:
  the root is fetched twice and its entry is returned twice.
\<close>

theorem sitemap_cycle_fetches_root_twice:
  "fetch_sitemap_urls demo_env url_a 500 [] =
     (Inr [\<lparr>loc = url_p, lastmod = None\<rparr>, \<lparr>loc = url_q, lastmod = None\<rparr>,
           \<lparr>loc = url_r, lastmod = None\<rparr>, \<lparr>loc = url_p, lastmod = None\<rparr>],
      [Get url_a 10, Get url_b 10, Get url_a 10])"
  using demo_resolve [of demo_env "[]"] by simp

text \<open>
  Claim C6 asks that a field for which no value is found is the empty string. The
  summary is read with the default \<open>""\<close>, the headline without one: the \<open>og:title\<close> tag
  of the second article has no \<open>content\<close> attribute, and its headline is \<open>None\<close>.
\<close>

theorem extract_headline_none_without_content:
  "find_meta_property (BeautifulSoup demo_env html_q) ''og:title''
     = Some [''property'' \<mapsto> ''og:title''] \<and>
   extract_article demo_env html_q url_q =
     \<lparr>meta_url = url_q, meta_headline = None, meta_summary = [], meta_content = [],
      meta_published_iso = []\<rparr>"
  by (simp add: demo_extract_q demo_soup soup_q_def)

text \<open>
  Claim C4 asks that the text fields handed to the writer have their newlines replaced
  by spaces and are trimmed. \<open>csv_escape\<close> does that, and \<open>main\<close> never calls it: the
  rows written are the records as they were assembled. The content of the first
  article reaches the writer with the newline between its two paragraphs.
\<close>

theorem rows_written_unescaped:
  "main demo_env demo_argv =
     (Inr (Done demo_result), events (final demo_result) @ [Print (MsgDone 2 0 1)]) \<and>
   map (\<lambda>(path, rows). map content rows) (written demo_result) =
     [[''Body text here.'' @ [CHR 0x0A] @ ''More text.''], [[]]] \<and>
   csv_escape (Some (''Body text here.'' @ [CHR 0x0A] @ ''More text.'')) =
     ''Body text here. More text.''"
  by (simp add: demo_run demo_result_def rec_p_def rec_q_def csv_escape_def replace_char_def
      strip_def is_space_def)


section \<open>The completion status\<close>


















end
